theory Spec2Isabelle
  imports Main
begin

section \<open>Errors\<close>

text \<open>
  Every failure of the program ends the process.  \<open>log.Fatalf\<close> is the controlled
  way (a message, then exit); a Go run-time panic (index out of range, nil
  dereference) is the uncontrolled one.  The message of a \<open>Fatal\<close> is the constant
  part of the format string, without the \<open>%v\<close> of the underlying error.
\<close>

datatype error = Fatal string | Panic string

section \<open>Go's \<open>time.Time\<close>, as far as the program reads it\<close>

text \<open>
  A \<open>time.Time\<close> is read by the program only through \<open>Year()\<close>, \<open>Month()\<close>,
  \<open>Day()\<close>, \<open>Weekday()\<close>, \<open>AddDate\<close> and \<open>Format\<close>, all of which work on the civil
  date in the value's own location.  The value is therefore kept as its civil
  fields; \<open>Secs\<close> is the time of day in seconds.  The proleptic Gregorian calendar
  of package \<open>time\<close> is written out below.
\<close>

record time =
  Year :: int
  Month :: int
  Day :: int
  Secs :: nat

definition isLeap :: "int \<Rightarrow> bool" where
  "isLeap y = (y mod 4 = 0 \<and> (y mod 100 \<noteq> 0 \<or> y mod 400 = 0))"

definition daysIn :: "int \<Rightarrow> int \<Rightarrow> int" where
  "daysIn y m =
     (if m = 2 then (if isLeap y then 29 else 28)
      else if m = 4 \<or> m = 6 \<or> m = 9 \<or> m = 11 then 30
      else 31)"

definition valid_time :: "time \<Rightarrow> bool" where
  "valid_time t =
     (1 \<le> Month t \<and> Month t \<le> 12 \<and> 1 \<le> Day t \<and> Day t \<le> daysIn (Year t) (Month t)
      \<and> Secs t < 86400)"

definition next_day :: "time \<Rightarrow> time" where
  "next_day t =
     (if Day t < daysIn (Year t) (Month t) then t\<lparr>Day := Day t + 1\<rparr>
      else if Month t < 12 then t\<lparr>Month := Month t + 1, Day := 1\<rparr>
      else t\<lparr>Year := Year t + 1, Month := 1, Day := 1\<rparr>)"

definition prev_day :: "time \<Rightarrow> time" where
  "prev_day t =
     (if 1 < Day t then t\<lparr>Day := Day t - 1\<rparr>
      else if 1 < Month t then t\<lparr>Month := Month t - 1, Day := daysIn (Year t) (Month t - 1)\<rparr>
      else t\<lparr>Year := Year t - 1, Month := 12, Day := 31\<rparr>)"

definition add_days :: "int \<Rightarrow> time \<Rightarrow> time" where
  "add_days k t = (if 0 \<le> k then (next_day ^^ nat k) t else (prev_day ^^ nat (- k)) t)"

text \<open>
  \<open>time.Date(year, month, day, ...)\<close>: month and day may be outside their usual
  ranges and are normalised, the month first (carrying into the year), then the
  day as an offset from the first of that month ("October 32 converts to
  November 1").  The clock is given here in seconds; what exceeds a day is
  carried into the days.
\<close>

definition Date :: "int \<Rightarrow> int \<Rightarrow> int \<Rightarrow> nat \<Rightarrow> time" where
  "Date y m d s =
     add_days (d - 1 + int (s div 86400))
       \<lparr>Year = y + (m - 1) div 12, Month = (m - 1) mod 12 + 1, Day = 1,
        Secs = s mod 86400\<rparr>"

text \<open>\<open>t.AddDate(years, months, days)\<close> normalises its result in the same way.\<close>

definition AddDate :: "int \<Rightarrow> int \<Rightarrow> int \<Rightarrow> time \<Rightarrow> time" where
  "AddDate years months days t =
     Date (Year t + years) (Month t + months) (Day t + days) (Secs t)"

datatype weekday = Sunday | Monday | Tuesday | Wednesday | Thursday | Friday | Saturday

definition daysBefore :: "int \<Rightarrow> int \<Rightarrow> int" where
  "daysBefore y m = (\<Sum>k \<leftarrow> [1..m - 1]. daysIn y k)"

text \<open>Days since Monday, 1 January of year 1.\<close>

definition absDay :: "time \<Rightarrow> int" where
  "absDay t =
     (let y = Year t - 1
      in 365 * y + y div 4 - y div 100 + y div 400 + daysBefore (Year t) (Month t)
         + Day t - 1)"

definition weekday_of :: "int \<Rightarrow> weekday" where
  "weekday_of n =
     (if n = 0 then Sunday else if n = 1 then Monday else if n = 2 then Tuesday
      else if n = 3 then Wednesday else if n = 4 then Thursday
      else if n = 5 then Friday else Saturday)"

definition Weekday :: "time \<Rightarrow> weekday" where
  "Weekday t = weekday_of ((absDay t + 1) mod 7)"

section \<open>Decimal output: \<open>strconv.Itoa\<close> and the layouts of \<open>Time.Format\<close>\<close>

definition digit :: "nat \<Rightarrow> char" where
  "digit n = ''0123456789'' ! (n mod 10)"

fun utoa :: "nat \<Rightarrow> string" where
  "utoa n = (if n < 10 then [digit n] else utoa (n div 10) @ [digit n])"

declare utoa.simps [simp del]

definition Itoa :: "int \<Rightarrow> string" where
  "Itoa n = (if n < 0 then CHR ''-'' # utoa (nat (- n)) else utoa (nat n))"

text \<open>
  \<open>appendInt(b, x, width)\<close> of package \<open>time\<close>: a minus sign for a negative
  number, then the digits, padded with zeros on the left to \<open>width\<close>.
\<close>

definition appendInt :: "int \<Rightarrow> nat \<Rightarrow> string" where
  "appendInt x width =
     (let u = utoa (nat \<bar>x\<bar>)
      in (if x < 0 then ''-'' else '''') @ replicate (width - length u) CHR ''0'' @ u)"

text \<open>The layouts the program uses, named by their reference strings.\<close>

definition Format_200601 :: "time \<Rightarrow> string" where
  "Format_200601 t = appendInt (Year t) 4 @ appendInt (Month t) 2"

definition Format_2006_01_02 :: "time \<Rightarrow> string" where
  "Format_2006_01_02 t =
     appendInt (Year t) 4 @ ''/'' @ appendInt (Month t) 2 @ ''/'' @ appendInt (Day t) 2"

definition Format_2006 :: "time \<Rightarrow> string" where
  "Format_2006 t = appendInt (Year t) 4"

definition Format_1 :: "time \<Rightarrow> string" where
  "Format_1 t = appendInt (Month t) 0"

definition Format_2 :: "time \<Rightarrow> string" where
  "Format_2 t = appendInt (Day t) 0"

definition Format_1_2 :: "time \<Rightarrow> string" where
  "Format_1_2 t = appendInt (Month t) 0 @ ''/'' @ appendInt (Day t) 0"

section \<open>DocumentTemplater: the placeholder batch\<close>

text \<open>
  \<open>makeReplaceRequest\<close> builds one \<open>ReplaceAllText\<close> request of the Docs API: the
  text searched for and the text put in its place.
\<close>

record docs_request =
  ContainsText :: string
  ReplaceText :: string

definition makeReplaceRequest :: "string \<Rightarrow> string \<Rightarrow> docs_request" where
  "makeReplaceRequest key val = \<lparr>ContainsText = key, ReplaceText = val\<rparr>"

text \<open>\<open>fmt.Sprintf("{{day%d}}", i)\<close> and \<open>fmt.Sprintf("{{day%dHours}}", i)\<close>.\<close>

definition day_key :: "int \<Rightarrow> string" where
  "day_key i = ''{{day'' @ Itoa i @ ''}}''"

definition hours_key :: "int \<Rightarrow> string" where
  "hours_key i = ''{{day'' @ Itoa i @ ''Hours}}''"

text \<open>The first three requests: year, month and last day of the month.\<close>

definition header_requests :: "time \<Rightarrow> docs_request list" where
  "header_requests targetTime =
     [makeReplaceRequest ''{{year}}'' (Format_2006 targetTime),
      makeReplaceRequest ''{{month}}'' (Format_1 targetTime),
      makeReplaceRequest ''{{day}}'' (Format_2 (AddDate 0 1 (- 1) targetTime))]"

text \<open>
  The walk \<open>for { if i > 12 || d.Month() != targetTime.Month() { break } ... }\<close>
  returns the final \<open>i\<close> and the extended request list.  It ends because
  \<open>d.AddDate(0, 0, 1)\<close> is a normalised date and, from a normalised date, the next
  day within the same month; the lemmas up to \<open>walk_measure_step\<close> are its
  termination argument.
\<close>

lemma daysIn_bounds: "28 \<le> daysIn y m" "daysIn y m \<le> 31"
  by (simp_all add: daysIn_def)

lemma valid_next_day: "valid_time t \<Longrightarrow> valid_time (next_day t)"
  using daysIn_bounds [of "Year t" "Month t + 1"] daysIn_bounds [of "Year t + 1" 1]
  by (auto simp: valid_time_def next_day_def)

lemma valid_prev_day: "valid_time t \<Longrightarrow> valid_time (prev_day t)"
  using daysIn_bounds [of "Year t" "Month t - 1"] daysIn_bounds [of "Year t" "Month t"]
  by (auto simp: valid_time_def prev_day_def daysIn_def)

lemma valid_funpow:
  "(\<And>t. valid_time t \<Longrightarrow> valid_time (f t)) \<Longrightarrow> valid_time t \<Longrightarrow> valid_time ((f ^^ n) t)"
  by (induction n) auto

lemma valid_add_days: "valid_time t \<Longrightarrow> valid_time (add_days k t)"
  by (simp add: add_days_def valid_funpow valid_next_day valid_prev_day)

lemma valid_Date: "valid_time (Date y m d s)"
proof -
  have "valid_time \<lparr>Year = y + (m - 1) div 12, Month = (m - 1) mod 12 + 1, Day = 1,
        Secs = s mod 86400\<rparr>"
    using daysIn_bounds [of "y + (m - 1) div 12" "(m - 1) mod 12 + 1"]
    by (simp add: valid_time_def)
  then show ?thesis unfolding Date_def by (rule valid_add_days)
qed

lemma next_day_steps:
  "int k < daysIn y m \<Longrightarrow>
   (next_day ^^ k) \<lparr>Year = y, Month = m, Day = 1, Secs = s\<rparr>
     = \<lparr>Year = y, Month = m, Day = 1 + int k, Secs = s\<rparr>"
  by (induction k) (auto simp: next_day_def)

lemma AddDate_day:
  assumes "valid_time t"
  shows "AddDate 0 0 1 t = next_day t"
proof -
  have m: "(Month t - 1) div 12 = 0" "(Month t - 1) mod 12 + 1 = Month t"
    using assms by (auto simp: valid_time_def)
  have s: "Secs t div 86400 = 0" "Secs t mod 86400 = Secs t"
    using assms by (auto simp: valid_time_def)
  have k: "int (nat (Day t - 1)) < daysIn (Year t) (Month t)" "0 \<le> Day t"
    using assms by (auto simp: valid_time_def)
  have "AddDate 0 0 1 t
     = (next_day ^^ Suc (nat (Day t - 1)))
         \<lparr>Year = Year t, Month = Month t, Day = 1, Secs = Secs t\<rparr>"
    using k(2) assms
    by (simp add: AddDate_def Date_def m s add_days_def valid_time_def
        Suc_nat_eq_nat_zadd1 del: funpow.simps)
  also have "\<dots> = next_day
      \<lparr>Year = Year t, Month = Month t, Day = 1 + int (nat (Day t - 1)), Secs = Secs t\<rparr>"
    using next_day_steps [OF k(1)] by simp
  also have "\<lparr>Year = Year t, Month = Month t, Day = 1 + int (nat (Day t - 1)),
      Secs = Secs t\<rparr> = t"
    using assms by (simp add: valid_time_def)
  finally show ?thesis .
qed

definition walk_measure :: "time \<times> time \<times> int \<times> docs_request list \<Rightarrow> nat" where
  "walk_measure = (\<lambda>(targetTime, d, i, req).
     if i > 12 \<or> Month d \<noteq> Month targetTime then 0
     else if valid_time d then 1 + nat (daysIn (Year d) (Month d) - Day d)
     else 33)"

lemma walk_measure_step:
  assumes "\<not> (i > 12 \<or> Month d \<noteq> Month targetTime)"
  shows "walk_measure (targetTime, AddDate 0 0 1 d, i', req')
           < walk_measure (targetTime, d, i, req)"
proof (cases "valid_time d")
  case True
  then show ?thesis
    using assms by (auto simp: walk_measure_def AddDate_day next_day_def valid_time_def)
next
  case False
  have v: "valid_time (AddDate 0 0 1 d)" by (simp add: AddDate_def valid_Date)
  then have "walk_measure (targetTime, AddDate 0 0 1 d, i', req') \<le> 31"
    using daysIn_bounds [of "Year (AddDate 0 0 1 d)" "Month (AddDate 0 0 1 d)"]
    by (auto simp: walk_measure_def valid_time_def)
  moreover have "walk_measure (targetTime, d, i, req) = 33"
    using assms False by (simp add: walk_measure_def)
  ultimately show ?thesis by simp
qed

function walk :: "time \<Rightarrow> time \<Rightarrow> int \<Rightarrow> docs_request list \<Rightarrow> int \<times> docs_request list" where
  "walk targetTime d i req =
     (if i > 12 \<or> Month d \<noteq> Month targetTime then (i, req)
      else if Weekday d = Monday \<or> Weekday d = Wednesday \<or> Weekday d = Friday
        then walk targetTime (AddDate 0 0 1 d) (i + 1)
               (req @ [makeReplaceRequest (day_key i) (Format_1_2 d),
                       makeReplaceRequest (hours_key i) ''8''])
        else walk targetTime (AddDate 0 0 1 d) i req)"
  by pat_completeness auto
termination
  by (relation "measure walk_measure") (simp_all add: walk_measure_step)

declare walk.simps [simp del]

text \<open>\<open>for i <= 12 { ...; i++ }\<close>: the slots the walk did not reach are blanked.\<close>

function blank :: "int \<Rightarrow> docs_request list \<Rightarrow> docs_request list" where
  "blank i req =
     (if i \<le> 12
      then blank (i + 1)
             (req @ [makeReplaceRequest (day_key i) '''', makeReplaceRequest (hours_key i) ''''])
      else req)"
  by pat_completeness auto
termination
  by (relation "measure (\<lambda>(i, req). nat (13 - i))") auto

declare blank.simps [simp del]

text \<open>The whole batch handed to \<open>Documents.BatchUpdate\<close>.\<close>

definition placeholder_requests :: "time \<Rightarrow> docs_request list" where
  "placeholder_requests targetTime =
     (let req = header_requests targetTime;
          (i, req) = walk targetTime targetTime 1 req;
          req = req @ [makeReplaceRequest ''{{totalHours}}'' (Itoa ((i - 1) * 8))]
      in blank i req)"

subsection \<open>The slot rule in the specification's words\<close>

text \<open>
  The dates from the start of the walk to the end of its month in calendar order
  (the whole month when the walk starts on its first day), those falling on a
  Monday, Wednesday or Friday, and the first twelve of these: the dates the
  specification says the slots receive.  \<open>filled_slots\<close> and \<open>blank_slots\<close> are
  the requests it describes for filled and for unused slots, given by the text
  each one searches and the text it puts in its place; \<open>slot_tokens\<close> are the 24
  placeholders of the slots.
\<close>

definition is_mwf :: "time \<Rightarrow> bool" where
  "is_mwf d = (Weekday d = Monday \<or> Weekday d = Wednesday \<or> Weekday d = Friday)"

definition days_from :: "time \<Rightarrow> time list" where
  "days_from d = map (\<lambda>k. d\<lparr>Day := k\<rparr>) [Day d..daysIn (Year d) (Month d)]"

definition month_days :: "time \<Rightarrow> time list" where
  "month_days T = map (\<lambda>k. T\<lparr>Day := k\<rparr>) [1..daysIn (Year T) (Month T)]"

definition spec_slot_dates :: "time \<Rightarrow> time list" where
  "spec_slot_dates T = take 12 (filter is_mwf (days_from T))"

fun filled_slots :: "int \<Rightarrow> time list \<Rightarrow> docs_request list" where
  "filled_slots i [] = []"
| "filled_slots i (d # ds) =
     \<lparr>ContainsText = ''{{day'' @ Itoa i @ ''}}'', ReplaceText = Format_1_2 d\<rparr>
       # \<lparr>ContainsText = ''{{day'' @ Itoa i @ ''Hours}}'', ReplaceText = ''8''\<rparr>
       # filled_slots (i + 1) ds"

definition blank_slots :: "int list \<Rightarrow> docs_request list" where
  "blank_slots js =
     concat (map (\<lambda>j. [\<lparr>ContainsText = ''{{day'' @ Itoa j @ ''}}'', ReplaceText = []\<rparr>,
                       \<lparr>ContainsText = ''{{day'' @ Itoa j @ ''Hours}}'', ReplaceText = []\<rparr>])
               js)"

definition slot_keys :: "int list \<Rightarrow> string list" where
  "slot_keys js = concat (map (\<lambda>j. [day_key j, hours_key j]) js)"

definition slot_tokens :: "string list" where
  "slot_tokens =
    [''{{day1}}'', ''{{day1Hours}}'', ''{{day2}}'', ''{{day2Hours}}'',
     ''{{day3}}'', ''{{day3Hours}}'', ''{{day4}}'', ''{{day4Hours}}'',
     ''{{day5}}'', ''{{day5Hours}}'', ''{{day6}}'', ''{{day6Hours}}'',
     ''{{day7}}'', ''{{day7Hours}}'', ''{{day8}}'', ''{{day8Hours}}'',
     ''{{day9}}'', ''{{day9Hours}}'', ''{{day10}}'', ''{{day10Hours}}'',
     ''{{day11}}'', ''{{day11Hours}}'', ''{{day12}}'', ''{{day12Hours}}'']"


section \<open>\<open>main\<close>: the target month\<close>

text \<open>
  \<open>targetTime = time.Date(targetTime.Year(), targetTime.Month(), 1, 0, 0, 0, 0, jst)\<close>,
  applied to the current time in Tokyo or to the parsed \<open>YYYYMM\<close> argument.
\<close>

definition target_month :: "time \<Rightarrow> time" where
  "target_month t = Date (Year t) (Month t) 1 0"

section \<open>Configuration\<close>

record Config =
  CredentialsFileName :: string
  OAuth2TokenFileName :: string
  CalendarID :: string
  WorkDayTitle :: string
  WorkStartTime :: string
  WorkSpreadsheetIDs :: "string list"
  WorkDocumentTemplateID :: string

section \<open>The remote services\<close>

text \<open>
  Calendar, Sheets, Drive and Docs are not part of the repository.  They are
  modelled by a \<open>world\<close>: the data the services hold, and what each call the
  program makes does to it.  Every call is appended to \<open>Calls\<close> when it is
  issued.  A call can fail for a reason of its own (no such document, a title
  that is taken) or because the transport fails: \<open>Faults\<close> is the schedule of
  transport failures, one entry consumed per call, \<open>True\<close> for a failed one.
  What the services choose themselves (identifiers and titles of copies, the page
  size of a listing, the bytes of an export) are fields of the world, so that a
  statement about every world covers every such choice.
\<close>

record event =
  Start_DateTime :: string
  Start_Date :: string
  Summary :: string

record sheet =
  SheetId :: int
  Title :: string
  Cells :: "string \<rightharpoonup> string list list"

record spreadsheet =
  PropertiesTitle :: string
  Sheets :: "sheet list"

record drive_file =
  FileId :: string
  Name :: string
  Parents :: "string list"

datatype call =
    NewService string
  | EventsList string time
  | SpreadsheetsGet string
  | SheetsCopyTo string int string
  | UpdateSheetProperties string int string nat
  | ValuesUpdate string string "string list list"
  | ExportSheet string int
  | FilesGet string
  | FilesList string string
  | FilesDelete string
  | FilesCopy string string "string list"
  | DocumentsBatchUpdate string "docs_request list"
  | FilesExport string string
  | ReadAll
  | WriteFile string string

record world =
  Faults :: "bool list"
  Calls :: "call list"
  Calendar :: "string \<Rightarrow> time \<Rightarrow> event list"
  Spreadsheets :: "string \<rightharpoonup> spreadsheet"
  NewSheetId :: "spreadsheet \<Rightarrow> int"
  CopyTitle :: "string \<Rightarrow> string"
  DriveFiles :: "drive_file list"
  NewFileId :: "drive_file list \<Rightarrow> string"
  PageSize :: nat
  Pending :: "drive_file list list"
  DocUpdates :: "(string \<times> docs_request list) list"
  Pdf :: "string \<Rightarrow> string"
  LocalFiles :: "(string \<times> string) list"

text \<open>Issuing a call: it is logged, and the transport succeeds or not.\<close>

definition remote :: "call \<Rightarrow> world \<Rightarrow> bool \<times> world" where
  "remote c w =
     (case Faults w of
        [] \<Rightarrow> (True, w\<lparr>Calls := Calls w @ [c]\<rparr>)
      | b # bs \<Rightarrow> (\<not> b, w\<lparr>Calls := Calls w @ [c], Faults := bs\<rparr>))"

text \<open>Whether the transport will carry the next call.\<close>

definition next_ok :: "world \<Rightarrow> bool" where
  "next_ok w = (case Faults w of [] \<Rightarrow> True | b # bs \<Rightarrow> \<not> b)"

subsection \<open>Calendar\<close>

text \<open>
  \<open>Events.List(id).ShowDeleted(false).SingleEvents(true).TimeMin(t).MaxResults(999)
  .OrderBy("startTime").Do()\<close>: which events come back for the lower bound is the
  server's business.
\<close>

definition events_list :: "world \<Rightarrow> string \<Rightarrow> time \<Rightarrow> event list option \<times> world" where
  "events_list w cid tmin =
     (let (ok, w1) = remote (EventsList cid tmin) w
      in if ok then (Some (Calendar w1 cid tmin), w1) else (None, w1))"

subsection \<open>Sheets\<close>

definition spreadsheets_get :: "world \<Rightarrow> string \<Rightarrow> spreadsheet option \<times> world" where
  "spreadsheets_get w sid =
     (let (ok, w1) = remote (SpreadsheetsGet sid) w
      in if ok then (Spreadsheets w1 sid, w1) else (None, w1))"

text \<open>
  \<open>Sheets.CopyTo\<close>: the copy carries the cells of its source, gets an identifier
  and a title from the service and is placed after the existing sheets of the
  destination.  The service never hands out an identifier that a sheet of the
  document already has: where the world proposes a used one, the next number
  above all used ones is taken.
\<close>

definition fresh_id :: "int \<Rightarrow> int list \<Rightarrow> int" where
  "fresh_id candidate used =
     (if candidate \<in> set used then 1 + fold max used 0 else candidate)"

definition sheets_copyTo :: "world \<Rightarrow> string \<Rightarrow> int \<Rightarrow> string \<Rightarrow> sheet option \<times> world" where
  "sheets_copyTo w sid sheetId dest =
     (let (ok, w1) = remote (SheetsCopyTo sid sheetId dest) w
      in if \<not> ok then (None, w1)
         else case Spreadsheets w1 sid of
           None \<Rightarrow> (None, w1)
         | Some ss \<Rightarrow>
             (case find (\<lambda>s. SheetId s = sheetId) (Sheets ss) of
                None \<Rightarrow> (None, w1)
              | Some src \<Rightarrow>
                  (case Spreadsheets w1 dest of
                     None \<Rightarrow> (None, w1)
                   | Some dst \<Rightarrow>
                       (let new = \<lparr>SheetId = fresh_id (NewSheetId w1 dst)
                                                (map SheetId (Sheets dst)),
                                   Title = CopyTitle w1 (Title src), Cells = Cells src\<rparr>
                        in (Some new,
                            w1\<lparr>Spreadsheets := (Spreadsheets w1)
                                  (dest \<mapsto> dst\<lparr>Sheets := Sheets dst @ [new]\<rparr>)\<rparr>)))))"

text \<open>
  \<open>BatchUpdate\<close> with one \<open>UpdateSheetProperties\<close> request, fields \<open>title,index\<close>:
  the sheet with the identifier is renamed and moved to the index.  Sheets
  refuses a title that another sheet of the document carries.
\<close>

fun remove_first :: "('a \<Rightarrow> bool) \<Rightarrow> 'a list \<Rightarrow> 'a list" where
  "remove_first P [] = []"
| "remove_first P (x # xs) = (if P x then xs else x # remove_first P xs)"

definition update_sheet_properties ::
  "world \<Rightarrow> string \<Rightarrow> int \<Rightarrow> string \<Rightarrow> nat \<Rightarrow> unit option \<times> world" where
  "update_sheet_properties w sid sheetId title index =
     (let (ok, w1) = remote (UpdateSheetProperties sid sheetId title index) w
      in if \<not> ok then (None, w1)
         else case Spreadsheets w1 sid of
           None \<Rightarrow> (None, w1)
         | Some ss \<Rightarrow>
             (case find (\<lambda>s. SheetId s = sheetId) (Sheets ss) of
                None \<Rightarrow> (None, w1)
              | Some s \<Rightarrow>
                  (let others = remove_first (\<lambda>s. SheetId s = sheetId) (Sheets ss)
                   in if title \<in> set (map Title others) then (None, w1)
                      else (Some (),
                            w1\<lparr>Spreadsheets := (Spreadsheets w1)
                                  (sid \<mapsto> ss\<lparr>Sheets := take index others
                                             @ [s\<lparr>Title := title\<rparr>] @ drop index others\<rparr>)\<rparr>))))"

text \<open>
  \<open>Values.Update(id, range, values)\<close>: the range is \<open>title!cells\<close>; the values
  replace what the cells of that range held in the sheet with the title.
\<close>

definition split_range :: "string \<Rightarrow> (string \<times> string) option" where
  "split_range r =
     (if CHR ''!'' \<in> set r
      then Some (takeWhile (\<lambda>c. c \<noteq> CHR ''!'') r, tl (dropWhile (\<lambda>c. c \<noteq> CHR ''!'') r))
      else None)"

fun update_first :: "('a \<Rightarrow> bool) \<Rightarrow> ('a \<Rightarrow> 'a) \<Rightarrow> 'a list \<Rightarrow> 'a list" where
  "update_first P f [] = []"
| "update_first P f (x # xs) = (if P x then f x # xs else x # update_first P f xs)"

definition values_update ::
  "world \<Rightarrow> string \<Rightarrow> string \<Rightarrow> string list list \<Rightarrow> unit option \<times> world" where
  "values_update w sid rng vals =
     (let (ok, w1) = remote (ValuesUpdate sid rng vals) w
      in if \<not> ok then (None, w1)
         else case Spreadsheets w1 sid of
           None \<Rightarrow> (None, w1)
         | Some ss \<Rightarrow>
             (case split_range rng of
                None \<Rightarrow> (None, w1)
              | Some (title, cells) \<Rightarrow>
                  if title \<in> set (map Title (Sheets ss))
                  then (Some (),
                        w1\<lparr>Spreadsheets := (Spreadsheets w1)
                              (sid \<mapsto> ss\<lparr>Sheets := update_first (\<lambda>s. Title s = title)
                                 (\<lambda>s. s\<lparr>Cells := (Cells s)(cells \<mapsto> vals)\<rparr>) (Sheets ss)\<rparr>)\<rparr>)
                  else (None, w1)))"

text \<open>The export URL of a sheet, fetched with the HTTP client, and reading its body.\<close>

definition export_sheet :: "world \<Rightarrow> string \<Rightarrow> int \<Rightarrow> string option \<times> world" where
  "export_sheet w sid gid =
     (let (ok, w1) = remote (ExportSheet sid gid) w
      in if ok then (Some (Pdf w1 sid), w1) else (None, w1))"

definition read_all :: "world \<Rightarrow> string \<Rightarrow> string option \<times> world" where
  "read_all w body = (let (ok, w1) = remote ReadAll w in if ok then (Some body, w1) else (None, w1))"

definition write_file :: "world \<Rightarrow> string \<Rightarrow> string \<Rightarrow> unit option \<times> world" where
  "write_file w name data =
     (let (ok, w1) = remote (WriteFile name data) w
      in if ok then (Some (), w1\<lparr>LocalFiles := LocalFiles w1 @ [(name, data)]\<rparr>) else (None, w1))"

definition new_service :: "world \<Rightarrow> string \<Rightarrow> unit option \<times> world" where
  "new_service w name =
     (let (ok, w1) = remote (NewService name) w in if ok then (Some (), w1) else (None, w1))"


subsection \<open>Drive and Docs\<close>

definition files_get :: "world \<Rightarrow> string \<Rightarrow> drive_file option \<times> world" where
  "files_get w fileId =
     (let (ok, w1) = remote (FilesGet fileId) w
      in if ok then (find (\<lambda>f. FileId f = fileId) (DriveFiles w1), w1) else (None, w1))"

text \<open>
  \<open>Files.List().Q("'folder' in parents").PageToken(token)\<close>.  A listing is served
  from a snapshot: the request with the empty token fixes the files of the folder
  and cuts them into pages of \<open>PageSize\<close> files (0: a single page); every later
  request hands out the next page, with a token as long as pages remain.  What is
  deleted in between does not change the pages still to come.
\<close>

fun paginate :: "nat \<Rightarrow> 'a list \<Rightarrow> 'a list list" where
  "paginate n [] = []"
| "paginate 0 (x # xs) = [x # xs]"
| "paginate (Suc n) (x # xs) = (x # take n xs) # paginate (Suc n) (drop n xs)"

definition serve ::
  "drive_file list list \<Rightarrow> world \<Rightarrow> (drive_file list \<times> string) option \<times> world" where
  "serve pages w =
     (case pages of
        [] \<Rightarrow> (Some ([], []), w\<lparr>Pending := []\<rparr>)
      | p # ps \<Rightarrow> (Some (p, if ps = [] then [] else ''next''), w\<lparr>Pending := ps\<rparr>))"

definition files_list ::
  "world \<Rightarrow> string \<Rightarrow> string \<Rightarrow> (drive_file list \<times> string) option \<times> world" where
  "files_list w folder token =
     (let (ok, w1) = remote (FilesList folder token) w
      in if \<not> ok then (None, w1)
         else if token = []
         then serve (paginate (PageSize w1)
                       (filter (\<lambda>f. folder \<in> set (Parents f)) (DriveFiles w1))) w1
         else if Pending w1 = [] then (None, w1)
         else serve (Pending w1) w1)"

definition files_delete :: "world \<Rightarrow> string \<Rightarrow> unit option \<times> world" where
  "files_delete w fileId =
     (let (ok, w1) = remote (FilesDelete fileId) w
      in if ok \<and> fileId \<in> set (map FileId (DriveFiles w1))
         then (Some (), w1\<lparr>DriveFiles := filter (\<lambda>f. FileId f \<noteq> fileId) (DriveFiles w1)\<rparr>)
         else (None, w1))"

definition files_copy ::
  "world \<Rightarrow> string \<Rightarrow> string \<Rightarrow> string list \<Rightarrow> drive_file option \<times> world" where
  "files_copy w fileId name parents =
     (let (ok, w1) = remote (FilesCopy fileId name parents) w
      in if ok \<and> fileId \<in> set (map FileId (DriveFiles w1))
         then (let f = \<lparr>FileId = NewFileId w1 (DriveFiles w1), Name = name,
                         Parents = parents\<rparr>
               in (Some f, w1\<lparr>DriveFiles := DriveFiles w1 @ [f]\<rparr>))
         else (None, w1))"

text \<open>\<open>Documents.BatchUpdate\<close>: the batch is recorded against the document.\<close>

definition documents_batchUpdate ::
  "world \<Rightarrow> string \<Rightarrow> docs_request list \<Rightarrow> unit option \<times> world" where
  "documents_batchUpdate w documentId reqs =
     (let (ok, w1) = remote (DocumentsBatchUpdate documentId reqs) w
      in if ok \<and> documentId \<in> set (map FileId (DriveFiles w1))
         then (Some (), w1\<lparr>DocUpdates := DocUpdates w1 @ [(documentId, reqs)]\<rparr>)
         else (None, w1))"

definition files_export :: "world \<Rightarrow> string \<Rightarrow> string \<Rightarrow> string option \<times> world" where
  "files_export w fileId mimeType =
     (let (ok, w1) = remote (FilesExport fileId mimeType) w
      in if ok \<and> fileId \<in> set (map FileId (DriveFiles w1))
         then (Some (Pdf w1 fileId), w1) else (None, w1))"


section \<open>WorkDayExtractor: \<open>getWorkDays\<close>\<close>

text \<open>
  \<open>time.Parse(time.RFC3339, s)\<close> and \<open>time.Parse("2006-01-02", s)\<close> belong to Go's
  library; the program is modelled for any pair of parsers.  \<open>None\<close> is a parse
  error.
\<close>

record parsers =
  ParseRFC3339 :: "string \<Rightarrow> time option"
  ParseDate :: "string \<Rightarrow> time option"

text \<open>The date of one calendar item, or the fatal error of the run.\<close>

definition event_date :: "parsers \<Rightarrow> event \<Rightarrow> error + time" where
  "event_date P item =
     (if Start_DateTime item \<noteq> []
      then (case ParseRFC3339 P (Start_DateTime item) of
              None \<Rightarrow> Inl (Fatal ''Failed to parse calendar datetime'')
            | Some date \<Rightarrow> Inr date)
      else (case ParseDate P (Start_Date item) of
              None \<Rightarrow> Inl (Fatal ''Failed to parse calendar date'')
            | Some date \<Rightarrow> Inr date))"

text \<open>The loop over \<open>events.Items\<close>, with \<open>workDays\<close> as its accumulator.\<close>

fun collect_work_days ::
  "parsers \<Rightarrow> time \<Rightarrow> Config \<Rightarrow> event list \<Rightarrow> time list \<Rightarrow> error + time list" where
  "collect_work_days P targetTime config [] workDays = Inr workDays"
| "collect_work_days P targetTime config (item # items) workDays =
     (case event_date P item of
        Inl e \<Rightarrow> Inl e
      | Inr date \<Rightarrow>
          if Year date \<noteq> Year targetTime \<or> Month date \<noteq> Month targetTime
          then collect_work_days P targetTime config items workDays
          else if Summary item = WorkDayTitle config
          then collect_work_days P targetTime config items (workDays @ [date])
          else collect_work_days P targetTime config items workDays)"

definition getWorkDays ::
  "parsers \<Rightarrow> world \<Rightarrow> time \<Rightarrow> Config \<Rightarrow> (error + time list) \<times> world" where
  "getWorkDays P w targetTime config =
     (case new_service w ''calendar'' of
        (None, w1) \<Rightarrow> (Inl (Fatal ''Failed to create calendar client''), w1)
      | (Some _, w1) \<Rightarrow>
          (case events_list w1 (CalendarID config) (AddDate 0 (- 1) (- 1) targetTime) of
             (None, w2) \<Rightarrow> (Inl (Fatal ''Failed to retrieve calendar''), w2)
           | (Some items, w2) \<Rightarrow> (collect_work_days P targetTime config items [], w2)))"

section \<open>SpreadsheetSynchronizer: \<open>updateAndDownloadWorkSpreadsheets\<close>\<close>

text \<open>
  The first loop over \<open>spreadsheet.Sheets\<close>: \<open>targetSheetID\<close> starts at 0 and takes
  the identifier of every sheet with the target title in turn.
\<close>

fun find_target :: "string \<Rightarrow> sheet list \<Rightarrow> int \<Rightarrow> int" where
  "find_target title [] targetSheetID = targetSheetID"
| "find_target title (s # ss) targetSheetID =
     find_target title ss (if title = Title s then SheetId s else targetSheetID)"

text \<open>The second loop stops at the first sheet with the title; \<open>None\<close> is \<open>nil\<close>.\<close>

fun find_copy_from :: "string \<Rightarrow> sheet list \<Rightarrow> sheet option" where
  "find_copy_from title [] = None"
| "find_copy_from title (s # ss) =
     (if title = Title s then Some s else find_copy_from title ss)"

text \<open>Lines 462 to 502: the identifier of the target sheet, cloned if need be.\<close>

definition target_sheet ::
  "world \<Rightarrow> time \<Rightarrow> string \<Rightarrow> spreadsheet \<Rightarrow> (error + int) \<times> world" where
  "target_sheet w targetTime spreadsheetID spreadsheet =
     (let targetSheetID = find_target (Format_200601 targetTime) (Sheets spreadsheet) 0
      in if targetSheetID = 0
         then (case find_copy_from (Format_200601 (AddDate 0 (- 1) 0 targetTime))
                      (Sheets spreadsheet) of
                 None \<Rightarrow> (Inl (Fatal ''Failed to determine sheet to copy''), w)
               | Some copyFrom \<Rightarrow>
                   (case sheets_copyTo w spreadsheetID (SheetId copyFrom) spreadsheetID of
                      (None, w1) \<Rightarrow> (Inl (Fatal ''Failed to copy sheet''), w1)
                    | (Some dest, w1) \<Rightarrow>
                        (case update_sheet_properties w1 spreadsheetID (SheetId dest)
                                (Format_200601 targetTime) 0 of
                           (None, w2) \<Rightarrow> (Inl (Fatal ''Failed to update sheet position''), w2)
                         | (Some _, w2) \<Rightarrow> (Inr (SheetId dest), w2))))
         else (Inr targetSheetID, w))"

text \<open>
  The attendance column.  \<open>day_value\<close> is the inner loop over \<open>workDays\<close> with its
  \<open>break\<close>, \<open>work_times\<close> the loop \<open>for i := 1; i <= 31; i++\<close>.
\<close>

fun day_value :: "time \<Rightarrow> Config \<Rightarrow> int \<Rightarrow> time list \<Rightarrow> string" where
  "day_value targetTime config i [] = []"
| "day_value targetTime config i (d # ds) =
     (if Year targetTime = Year d \<and> Month targetTime = Month d \<and> i = Day d
      then WorkStartTime config
      else day_value targetTime config i ds)"

function work_times ::
  "time \<Rightarrow> time list \<Rightarrow> Config \<Rightarrow> int \<Rightarrow> string list list \<Rightarrow> string list list" where
  "work_times targetTime workDays config i vals =
     (if i \<le> 31
      then work_times targetTime workDays config (i + 1)
             (vals @ [[day_value targetTime config i workDays]])
      else vals)"
  by pat_completeness auto
termination
  by (relation "measure (\<lambda>(targetTime, workDays, config, i, vals). nat (32 - i))") auto

declare work_times.simps [simp del]

text \<open>Lines 504 to 541: the two writes, the export and the local PDF file.\<close>

definition write_and_export ::
  "world \<Rightarrow> time \<Rightarrow> time list \<Rightarrow> Config \<Rightarrow> string \<Rightarrow> spreadsheet \<Rightarrow> int
     \<Rightarrow> (error + unit) \<times> world" where
  "write_and_export w targetTime workDays config spreadsheetID spreadsheet targetSheetID =
     (case values_update w spreadsheetID (Format_200601 targetTime @ ''!M3:M3'')
             [[Format_2006_01_02 targetTime]] of
        (None, w1) \<Rightarrow> (Inl (Fatal ''Failed to set work month to sheet''), w1)
      | (Some _, w1) \<Rightarrow>
          (case values_update w1 spreadsheetID (Format_200601 targetTime @ ''!D7:D37'')
                  (work_times targetTime workDays config 1 []) of
             (None, w2) \<Rightarrow> (Inl (Fatal ''Failed to set work times to sheet''), w2)
           | (Some _, w2) \<Rightarrow>
               (case export_sheet w2 spreadsheetID targetSheetID of
                  (None, w3) \<Rightarrow> (Inl (Fatal ''Failed to export spreadsheet''), w3)
                | (Some body, w3) \<Rightarrow>
                    (case read_all w3 body of
                       (None, w4) \<Rightarrow>
                         (Inl (Fatal ''Failed to read response for export spreadsheet''), w4)
                     | (Some d, w4) \<Rightarrow>
                         (case write_file w4
                                 (Format_200601 targetTime @ PropertiesTitle spreadsheet
                                    @ ''.pdf'') d of
                            (None, w5) \<Rightarrow> (Inl (Fatal ''Failed to save spreadsheet pdf''), w5)
                          | (Some _, w5) \<Rightarrow> (Inr (), w5))))))"

text \<open>The body of the loop over \<open>config.WorkSpreadsheetIDs\<close>, and the loop.\<close>

definition sync_spreadsheet ::
  "world \<Rightarrow> time \<Rightarrow> time list \<Rightarrow> Config \<Rightarrow> string \<Rightarrow> (error + unit) \<times> world" where
  "sync_spreadsheet w targetTime workDays config spreadsheetID =
     (case spreadsheets_get w spreadsheetID of
        (None, w1) \<Rightarrow> (Inl (Fatal ''Failed to get spreadsheet''), w1)
      | (Some spreadsheet, w1) \<Rightarrow>
          (case target_sheet w1 targetTime spreadsheetID spreadsheet of
             (Inl e, w2) \<Rightarrow> (Inl e, w2)
           | (Inr targetSheetID, w2) \<Rightarrow>
               write_and_export w2 targetTime workDays config spreadsheetID spreadsheet
                 targetSheetID))"

fun sync_all ::
  "world \<Rightarrow> time \<Rightarrow> time list \<Rightarrow> Config \<Rightarrow> string list \<Rightarrow> (error + unit) \<times> world" where
  "sync_all w targetTime workDays config [] = (Inr (), w)"
| "sync_all w targetTime workDays config (spreadsheetID # ids) =
     (case sync_spreadsheet w targetTime workDays config spreadsheetID of
        (Inl e, w1) \<Rightarrow> (Inl e, w1)
      | (Inr _, w1) \<Rightarrow> sync_all w1 targetTime workDays config ids)"

definition updateAndDownloadWorkSpreadsheets ::
  "world \<Rightarrow> time \<Rightarrow> time list \<Rightarrow> Config \<Rightarrow> (error + unit) \<times> world" where
  "updateAndDownloadWorkSpreadsheets w targetTime workDays config =
     (case new_service w ''sheets'' of
        (None, w1) \<Rightarrow> (Inl (Fatal ''Failed to create sheet client''), w1)
      | (Some _, w1) \<Rightarrow> sync_all w1 targetTime workDays config (WorkSpreadsheetIDs config))"


section \<open>Reference parsers for the two layouts\<close>

text \<open>
  The two layouts as \<open>time.Parse\<close> reads them, for the examples: \<open>2006-01-02\<close>,
  and \<open>2006-01-02T15:04:05\<close> followed by an optional fraction of a second (a
  period or comma and digits) and by \<open>Z\<close> or a numeric offset, whose hour may
  not exceed 24 and whose minute may not exceed 60.  The fraction and the offset
  do not change the civil fields.  No theorem about the program depends on these
  parsers.
\<close>

fun index_of :: "'a \<Rightarrow> 'a list \<Rightarrow> nat option" where
  "index_of x [] = None"
| "index_of x (y # ys) = (if x = y then Some 0 else map_option Suc (index_of x ys))"

definition digit_val :: "char \<Rightarrow> nat option" where
  "digit_val c = index_of c ''0123456789''"

fun atou :: "nat \<Rightarrow> string \<Rightarrow> nat option" where
  "atou acc [] = Some acc"
| "atou acc (c # cs) =
     (case digit_val c of None \<Rightarrow> None | Some d \<Rightarrow> atou (10 * acc + d) cs)"

definition Parse_2006_01_02 :: "string \<Rightarrow> time option" where
  "Parse_2006_01_02 s =
     (if length s = 10 \<and> s ! 4 = CHR ''-'' \<and> s ! 7 = CHR ''-''
      then (case (atou 0 (take 4 s), atou 0 (take 2 (drop 5 s)), atou 0 (drop 8 s)) of
              (Some y, Some m, Some d) \<Rightarrow>
                (let t = \<lparr>Year = int y, Month = int m, Day = int d, Secs = 0\<rparr>
                 in if valid_time t then Some t else None)
            | _ \<Rightarrow> None)
      else None)"

definition zone_ok :: "string \<Rightarrow> bool" where
  "zone_ok z =
     (z = ''Z'' \<or>
      (length z = 6 \<and> (z ! 0 = CHR ''+'' \<or> z ! 0 = CHR ''-'') \<and> z ! 3 = CHR '':''
       \<and> (case (atou 0 (take 2 (drop 1 z)), atou 0 (drop 4 z)) of
             (Some h, Some m) \<Rightarrow> h \<le> 24 \<and> m \<le> 60
           | _ \<Rightarrow> False)))"

text \<open>What follows the seconds, without the fraction; \<open>None\<close> for a separator
  that no digit follows.\<close>

definition skip_fraction :: "string \<Rightarrow> string option" where
  "skip_fraction r =
     (case r of
        [] \<Rightarrow> Some []
      | c # cs \<Rightarrow>
          if c = CHR ''.'' \<or> c = CHR '',''
          then (if takeWhile (\<lambda>d. digit_val d \<noteq> None) cs = [] then None
                else Some (dropWhile (\<lambda>d. digit_val d \<noteq> None) cs))
          else Some r)"

definition Parse_RFC3339 :: "string \<Rightarrow> time option" where
  "Parse_RFC3339 s =
     (if 20 \<le> length s \<and> s ! 10 = CHR ''T'' \<and> s ! 13 = CHR '':'' \<and> s ! 16 = CHR '':''
      then (case (Parse_2006_01_02 (take 10 s), atou 0 (take 2 (drop 11 s)),
                  atou 0 (take 2 (drop 14 s)), atou 0 (take 2 (drop 17 s)),
                  skip_fraction (drop 19 s)) of
              (Some t, Some h, Some m, Some sec, Some z) \<Rightarrow>
                if h < 24 \<and> m < 60 \<and> sec < 60 \<and> zone_ok z
                then Some (t\<lparr>Secs := h * 3600 + m * 60 + sec\<rparr>) else None
            | _ \<Rightarrow> None)
      else None)"

definition go_parsers :: parsers where
  "go_parsers = \<lparr>ParseRFC3339 = Parse_RFC3339, ParseDate = Parse_2006_01_02\<rparr>"


section \<open>The extractor in the words of the specification\<close>

text \<open>
  The dates of the events whose label is the configured marker and whose date
  lies in the target month, in the order of the events, repeats included.
\<close>

definition spec_work_days :: "parsers \<Rightarrow> time \<Rightarrow> Config \<Rightarrow> event list \<Rightarrow> time list" where
  "spec_work_days P T c items =
     concat (map (\<lambda>item. case event_date P item of
                            Inl e \<Rightarrow> []
                          | Inr d \<Rightarrow> if Summary item = WorkDayTitle c \<and> Year d = Year T
                                         \<and> Month d = Month T then [d] else []) items)"


section \<open>What a range of a page holds\<close>

text \<open>
  The values last written to a range of the page with a given title, and the
  state of a spreadsheet in which the date cell M3 and the column D7:D37 of the
  target page hold what the synchroniser writes for the given inputs.
\<close>

definition cell_values :: "world \<Rightarrow> string \<Rightarrow> string \<Rightarrow> string \<Rightarrow> string list list option" where
  "cell_values w sid title cells =
     (case Spreadsheets w sid of
        None \<Rightarrow> None
      | Some ss \<Rightarrow>
          (case find (\<lambda>s. Title s = title) (Sheets ss) of
             None \<Rightarrow> None
           | Some s \<Rightarrow> Cells s cells))"

definition written :: "world \<Rightarrow> time \<Rightarrow> time list \<Rightarrow> Config \<Rightarrow> string \<Rightarrow> bool" where
  "written w T ws c sid =
     (cell_values w sid (Format_200601 T) ''M3:M3'' = Some [[Format_2006_01_02 T]]
      \<and> cell_values w sid (Format_200601 T) ''D7:D37'' = Some (work_times T ws c 1 []))"


section \<open>DocumentTemplater: \<open>updateAndDownloadWorkDocuments\<close>\<close>

text \<open>\<open>strings.Replace(s, old, new, 1)\<close>: the first occurrence of \<open>old\<close> is replaced.\<close>

fun replace_first :: "string \<Rightarrow> string \<Rightarrow> string \<Rightarrow> string" where
  "replace_first old new [] = (if old = [] then new else [])"
| "replace_first old new (c # cs) =
     (if take (length old) (c # cs) = old then new @ drop (length old) (c # cs)
      else c # replace_first old new cs)"

text \<open>The loop over the files of one page of the listing.\<close>

fun delete_named :: "world \<Rightarrow> string \<Rightarrow> drive_file list \<Rightarrow> (error + unit) \<times> world" where
  "delete_named w targetDocumentName [] = (Inr (), w)"
| "delete_named w targetDocumentName (f # fs) =
     (if Name f = targetDocumentName
      then (case files_delete w (FileId f) of
              (None, w1) \<Rightarrow> (Inl (Fatal ''Failed to delete existing document''), w1)
            | (Some _, w1) \<Rightarrow> delete_named w1 targetDocumentName fs)
      else delete_named w targetDocumentName fs)"

text \<open>
  The loop over the pages, \<open>for { ...; if files.NextPageToken == "" { break } ... }\<close>.
  It ends because every request with a token takes a page from the pages that
  remain, and the first request leaves fewer pages than the folder has files.
\<close>

lemma paginate_length: "length (paginate n xs) \<le> length xs"
proof (induction n xs rule: paginate.induct)
  case (3 n x xs)
  have "length (paginate (Suc n) (drop n xs)) \<le> length (drop n xs)" by (rule 3)
  also have "\<dots> \<le> length xs" by simp
  finally show ?case by simp
qed simp_all

lemma files_delete_Pending [simp]:
  "Pending (snd (files_delete w i)) = Pending w"
  by (simp add: files_delete_def remote_def split: list.splits)

lemma delete_named_Pending [simp]:
  "Pending (snd (delete_named w name fs)) = Pending w"
proof (induction fs arbitrary: w)
  case Nil
  then show ?case by simp
next
  case (Cons f fs)
  show ?case
  proof (cases "Name f = name")
    case False
    then show ?thesis using Cons.IH by simp
  next
    case True
    show ?thesis
    proof (cases "fst (files_delete w (FileId f))")
      case None
      then show ?thesis using True by (simp add: split_beta)
    next
      case (Some u)
      then show ?thesis
        using True Cons.IH [of "snd (files_delete w (FileId f))"] by (simp add: split_beta)
    qed
  qed
qed

definition pages_left :: "world \<times> string \<times> string \<times> string \<Rightarrow> nat" where
  "pages_left = (\<lambda>(w, folderID, name, token).
     if token = [] then Suc (length (DriveFiles w)) else length (Pending w))"

lemma files_list_pages_left:
  assumes "files_list w folderID token = (Some (files, next), w1)" and "next \<noteq> []"
  shows "length (Pending w1) < pages_left (w, folderID, name, token)"
proof (cases "token = []")
  case True
  let ?fs = "filter (\<lambda>f. folderID \<in> set (Parents f)) (DriveFiles w)"
  have "length (Pending w1) < length (paginate (PageSize w) ?fs)"
    using assms True
    by (auto simp: files_list_def serve_def remote_def split: list.splits if_splits)
  also have "\<dots> \<le> length ?fs" by (rule paginate_length)
  also have "\<dots> \<le> length (DriveFiles w)" by simp
  finally show ?thesis using True by (simp add: pages_left_def)
next
  case False
  then show ?thesis
    using assms
    by (auto simp: files_list_def serve_def remote_def pages_left_def
        split: list.splits if_splits)
qed

function delete_existing ::
  "world \<Rightarrow> string \<Rightarrow> string \<Rightarrow> string \<Rightarrow> (error + unit) \<times> world" where
  "delete_existing w folderID targetDocumentName nextPageToken =
     (case files_list w folderID nextPageToken of
        (None, w1) \<Rightarrow> (Inl (Fatal ''Failed to retrieve files from drive''), w1)
      | (Some (files, next), w1) \<Rightarrow>
          (case delete_named w1 targetDocumentName files of
             (Inl e, w2) \<Rightarrow> (Inl e, w2)
           | (Inr _, w2) \<Rightarrow>
               if next = [] then (Inr (), w2)
               else delete_existing w2 folderID targetDocumentName next))"
  by pat_completeness auto
termination
proof (relation "measure pages_left")
  show "wf (measure pages_left)" by simp
next
  fix w folderID targetDocumentName nextPageToken x w1 x2 files "next" r w2 u
  assume l: "(x, w1) = files_list w folderID nextPageToken" "x = Some x2"
    "(files, next) = x2"
    and d: "(r, w2) = delete_named w1 targetDocumentName files" "r = Inr u"
    and n: "next \<noteq> []"
  have "Pending w2 = Pending w1"
    using delete_named_Pending [of w1 targetDocumentName files] d(1) [symmetric] by simp
  moreover have "files_list w folderID nextPageToken = (Some (files, next), w1)"
    using l by simp
  then have "length (Pending w1)
      < pages_left (w, folderID, targetDocumentName, nextPageToken)"
    using n by (rule files_list_pages_left)
  ultimately show "((w2, folderID, targetDocumentName, next),
        (w, folderID, targetDocumentName, nextPageToken)) \<in> measure pages_left"
    using n by (simp add: pages_left_def)
qed

declare delete_existing.simps [simp del]

text \<open>
  Lines 551 to 591: the template's folder, the name of the target document, the
  removal of documents with that name and the copy of the template.
  \<open>template.Parents[0]\<close> is an index expression on a slice: on an empty slice
  the Go run time panics.
\<close>

definition prepare_document :: "world \<Rightarrow> time \<Rightarrow> Config \<Rightarrow> (error + drive_file) \<times> world" where
  "prepare_document w targetTime config =
     (case files_get w (WorkDocumentTemplateID config) of
        (None, w1) \<Rightarrow> (Inl (Fatal ''Failed to get template''), w1)
      | (Some template, w1) \<Rightarrow>
          (case Parents template of
             [] \<Rightarrow> (Inl (Panic ''runtime error: index out of range [0] with length 0''), w1)
           | folderID # _ \<Rightarrow>
               (let targetDocumentName =
                      replace_first ''yyyymm'' (Format_200601 targetTime) (Name template)
                in case delete_existing w1 folderID targetDocumentName [] of
                     (Inl e, w2) \<Rightarrow> (Inl e, w2)
                   | (Inr _, w2) \<Rightarrow>
                       (case files_copy w2 (WorkDocumentTemplateID config)
                               targetDocumentName [folderID] of
                          (None, w3) \<Rightarrow> (Inl (Fatal ''Failed to copy template''), w3)
                        | (Some f, w3) \<Rightarrow> (Inr f, w3)))))"

text \<open>Lines 593 to 651: the placeholder batch, the export and the local PDF file.\<close>

definition fill_and_export :: "world \<Rightarrow> time \<Rightarrow> drive_file \<Rightarrow> (error + unit) \<times> world" where
  "fill_and_export w targetTime f =
     (case new_service w ''docs'' of
        (None, w1) \<Rightarrow> (Inl (Fatal ''Failed to create docs client''), w1)
      | (Some _, w1) \<Rightarrow>
          (case documents_batchUpdate w1 (FileId f) (placeholder_requests targetTime) of
             (None, w2) \<Rightarrow> (Inl (Fatal ''Failed to update document''), w2)
           | (Some _, w2) \<Rightarrow>
               (case files_export w2 (FileId f) ''application/pdf'' of
                  (None, w3) \<Rightarrow> (Inl (Fatal ''Failed to export document''), w3)
                | (Some body, w3) \<Rightarrow>
                    (case read_all w3 body of
                       (None, w4) \<Rightarrow>
                         (Inl (Fatal ''Failed to read response for export document''), w4)
                     | (Some data, w4) \<Rightarrow>
                         (case write_file w4 (Name f @ ''.pdf'') data of
                            (None, w5) \<Rightarrow> (Inl (Fatal ''Failed to save document pdf''), w5)
                          | (Some _, w5) \<Rightarrow> (Inr (), w5))))))"

definition updateAndDownloadWorkDocuments ::
  "world \<Rightarrow> time \<Rightarrow> Config \<Rightarrow> (error + unit) \<times> world" where
  "updateAndDownloadWorkDocuments w targetTime config =
     (case new_service w ''drive'' of
        (None, w1) \<Rightarrow> (Inl (Fatal ''Failed to create drive client''), w1)
      | (Some _, w1) \<Rightarrow>
          (case prepare_document w1 targetTime config of
             (Inl e, w2) \<Rightarrow> (Inl e, w2)
           | (Inr f, w2) \<Rightarrow> fill_and_export w2 targetTime f))"

section \<open>\<open>main\<close>: the three steps in order\<close>

text \<open>
  After the target month is fixed and the operator has confirmed, \<open>main\<close> runs
  the extractor, the synchroniser and the templater; the first fatal error ends
  the run.  \<open>now\<close> is the time \<open>main\<close> starts from.
\<close>

definition main_run :: "parsers \<Rightarrow> world \<Rightarrow> time \<Rightarrow> Config \<Rightarrow> (error + unit) \<times> world" where
  "main_run P w now config =
     (let targetTime = target_month now
      in case getWorkDays P w targetTime config of
           (Inl e, w1) \<Rightarrow> (Inl e, w1)
         | (Inr days, w1) \<Rightarrow>
             (case updateAndDownloadWorkSpreadsheets w1 targetTime days config of
                (Inl e, w2) \<Rightarrow> (Inl e, w2)
              | (Inr _, w2) \<Rightarrow> updateAndDownloadWorkDocuments w2 targetTime config))"


section \<open>The files of a folder with a given name\<close>

text \<open>
  \<open>named_in\<close> selects the files that carry a name and have the folder among their
  parents; \<open>to_list\<close> is what a listing started or continued with a page token
  has yet to hand out.
\<close>

definition named_in :: "string \<Rightarrow> string \<Rightarrow> drive_file list \<Rightarrow> drive_file list" where
  "named_in folderID name fs = filter (\<lambda>g. Name g = name \<and> folderID \<in> set (Parents g)) fs"

definition to_list :: "world \<Rightarrow> string \<Rightarrow> string \<Rightarrow> drive_file list" where
  "to_list w folderID token =
     (if token = [] then filter (\<lambda>f. folderID \<in> set (Parents f)) (DriveFiles w)
      else concat (Pending w))"


section \<open>An example world\<close>

text \<open>
  One calendar with five events, one spreadsheet that has a page for January
  2024 only, and a Drive folder that holds the template, two stale documents for
  February 2024 and an unrelated file; listings come in pages of two.
\<close>

definition demo_config :: Config where
  "demo_config =
     \<lparr>CredentialsFileName = ''credentials.json'', OAuth2TokenFileName = ''token.json'',
      CalendarID = ''primary'', WorkDayTitle = ''work'', WorkStartTime = ''09:00'',
      WorkSpreadsheetIDs = [''book''], WorkDocumentTemplateID = ''tpl''\<rparr>"

definition demo_events :: "event list" where
  "demo_events =
     [\<lparr>Start_DateTime = ''2024-02-03T09:00:00+09:00'', Start_Date = [], Summary = ''work''\<rparr>,
      \<lparr>Start_DateTime = [], Start_Date = ''2024-02-10'', Summary = ''work''\<rparr>,
      \<lparr>Start_DateTime = [], Start_Date = ''2024-02-11'', Summary = ''holiday''\<rparr>,
      \<lparr>Start_DateTime = [], Start_Date = ''2024-01-31'', Summary = ''work''\<rparr>,
      \<lparr>Start_DateTime = [], Start_Date = ''2024-02-03'', Summary = ''work''\<rparr>]"

definition demo_world :: world where
  "demo_world =
     \<lparr>Faults = [], Calls = [],
      Calendar = (\<lambda>cid tmin. if cid = ''primary'' then demo_events else []),
      Spreadsheets = [''book'' \<mapsto>
         \<lparr>PropertiesTitle = ''Attendance'',
          Sheets = [\<lparr>SheetId = 7, Title = ''202401'', Cells = Map.empty\<rparr>]\<rparr>],
      NewSheetId = (\<lambda>ss. 8),
      CopyTitle = (\<lambda>t. ''Copy of '' @ t),
      DriveFiles =
        [\<lparr>FileId = ''tpl'', Name = ''Report yyyymm'', Parents = [''folder'']\<rparr>,
         \<lparr>FileId = ''old1'', Name = ''Report 202402'', Parents = [''folder'']\<rparr>,
         \<lparr>FileId = ''notes'', Name = ''Notes'', Parents = [''folder'']\<rparr>,
         \<lparr>FileId = ''old2'', Name = ''Report 202402'', Parents = [''folder'']\<rparr>],
      NewFileId = (\<lambda>fs. ''new''),
      PageSize = 2, Pending = [], DocUpdates = [],
      Pdf = (\<lambda>id. ''%PDF''), LocalFiles = []\<rparr>"

definition apr_2024 :: time where
  "apr_2024 = \<lparr>Year = 2024, Month = 4, Day = 1, Secs = 0\<rparr>"

definition feb_2024 :: time where
  "feb_2024 = \<lparr>Year = 2024, Month = 2, Day = 1, Secs = 0\<rparr>"

text \<open>The same world with a page for February 2024 whose identifier is 0.\<close>

definition zero_world :: world where
  "zero_world = demo_world\<lparr>Spreadsheets := [''book'' \<mapsto>
     \<lparr>PropertiesTitle = ''Attendance'',
      Sheets = [\<lparr>SheetId = 0, Title = ''202402'', Cells = Map.empty\<rparr>,
                \<lparr>SheetId = 7, Title = ''202401'', Cells = Map.empty\<rparr>]\<rparr>]\<rparr>"

text \<open>The work days the extractor finds in the example calendar.\<close>

definition demo_days :: "time list" where
  "demo_days = [\<lparr>Year = 2024, Month = 2, Day = 3, Secs = 32400\<rparr>,
                \<lparr>Year = 2024, Month = 2, Day = 10, Secs = 0\<rparr>,
                \<lparr>Year = 2024, Month = 2, Day = 3, Secs = 0\<rparr>]"

text \<open>The example world with a template that has no parent folder.\<close>

definition orphan_world :: world where
  "orphan_world = demo_world\<lparr>DriveFiles :=
     [\<lparr>FileId = ''tpl'', Name = ''Report yyyymm'', Parents = []\<rparr>]\<rparr>"

text \<open>The example world with a template whose name has no \<open>yyyymm\<close> in it.\<close>

definition bare_world :: world where
  "bare_world = demo_world\<lparr>DriveFiles :=
     [\<lparr>FileId = ''tpl'', Name = ''Report'', Parents = [''folder'']\<rparr>]\<rparr>"


section \<open>Remote calls: lemmas\<close>

lemma remote_fields [simp]:
  "Calendar (snd (remote c w)) = Calendar w"
  "Spreadsheets (snd (remote c w)) = Spreadsheets w"
  "DriveFiles (snd (remote c w)) = DriveFiles w"
  "Pending (snd (remote c w)) = Pending w"
  "PageSize (snd (remote c w)) = PageSize w"
  "NewSheetId (snd (remote c w)) = NewSheetId w"
  "CopyTitle (snd (remote c w)) = CopyTitle w"
  "NewFileId (snd (remote c w)) = NewFileId w"
  "DocUpdates (snd (remote c w)) = DocUpdates w"
  "LocalFiles (snd (remote c w)) = LocalFiles w"
  "Pdf (snd (remote c w)) = Pdf w"
  "Calls (snd (remote c w)) = Calls w @ [c]"
  by (simp_all add: remote_def split: list.splits)

lemma remote_eq:
  "remote c w = (next_ok w, w\<lparr>Calls := Calls w @ [c], Faults := tl (Faults w)\<rparr>)"
  by (cases "Faults w") (simp_all add: remote_def next_ok_def)


section \<open>The calendar: the day count follows the days\<close>

text \<open>
  The day count from which \<open>Weekday\<close> is computed grows by one from each day to
  the next, also across the ends of months and years.
\<close>

lemma daysBefore_Suc: "1 \<le> m \<Longrightarrow> daysBefore y (m + 1) = daysBefore y m + daysIn y m"
  by (simp add: daysBefore_def upto_rec2 [of 1 m])

lemma daysBefore_1: "daysBefore y 1 = 0"
  by (simp add: daysBefore_def)

lemma daysBefore_12: "daysBefore y 12 = (if isLeap y then 335 else 334)"
  by (simp add: daysBefore_def upto.simps daysIn_def)

lemma div_step:
  assumes "0 < (k::int)"
  shows "y div k = (y - 1) div k + (if y mod k = 0 then 1 else 0)"
proof (cases "y mod k = 0")
  case True
  have y: "y = k * (y div k)" using True mult_div_mod_eq [of k y] by simp
  have "k * (y div k) - 1 = k * (y div k - 1) + (k - 1)" by (simp add: right_diff_distrib)
  then have "y - 1 = k * (y div k - 1) + (k - 1)" using y by simp
  then have "(y - 1) div k = y div k - 1"
    using assms by (intro int_div_pos_eq [where r = "k - 1"]) simp_all
  then show ?thesis using True by simp
next
  case False
  have m: "0 \<le> y mod k" "y mod k < k" using assms by simp_all
  have "y = k * (y div k) + y mod k" using mult_div_mod_eq [of k y] by simp
  then have "y - 1 = k * (y div k) + (y mod k - 1)" by simp
  then have "(y - 1) div k = y div k"
    using m False by (intro int_div_pos_eq [where r = "y mod k - 1"]) simp_all
  then show ?thesis using False by simp
qed

lemma mod_chain:
  fixes y :: int
  shows "y mod 400 = 0 \<Longrightarrow> y mod 100 = 0" "y mod 100 = 0 \<Longrightarrow> y mod 4 = 0"
proof -
  assume "y mod 400 = 0"
  then have "400 dvd y" by (simp add: mod_eq_0_iff_dvd)
  moreover have "(100::int) dvd 400" by simp
  ultimately have "100 dvd y" by (rule dvd_trans [rotated])
  then show "y mod 100 = 0" by (simp add: mod_eq_0_iff_dvd)
next
  assume "y mod 100 = 0"
  then have "100 dvd y" by (simp add: mod_eq_0_iff_dvd)
  moreover have "(4::int) dvd 100" by simp
  ultimately have "4 dvd y" by (rule dvd_trans [rotated])
  then show "y mod 4 = 0" by (simp add: mod_eq_0_iff_dvd)
qed

lemma leap_days_step:
  "(y::int) div 4 - y div 100 + y div 400
     = (y - 1) div 4 - (y - 1) div 100 + (y - 1) div 400 + (if isLeap y then 1 else 0)"
proof -
  have a: "y div 4 = (y - 1) div 4 + (if y mod 4 = 0 then 1 else 0)"
    by (rule div_step) simp
  have b: "y div 100 = (y - 1) div 100 + (if y mod 100 = 0 then 1 else 0)"
    by (rule div_step) simp
  have c: "y div 400 = (y - 1) div 400 + (if y mod 400 = 0 then 1 else 0)"
    by (rule div_step) simp
  show ?thesis
    using mod_chain [of y] by (cases "y mod 4 = 0"; cases "y mod 100 = 0"; cases "y mod 400 = 0")
      (simp_all add: a b c isLeap_def)
qed

lemma absDay_next_day:
  assumes "valid_time t"
  shows "absDay (next_day t) = absDay t + 1"
proof -
  have "Day t \<le> daysIn (Year t) (Month t)" "Month t \<le> 12"
    using assms by (simp_all add: valid_time_def)
  then consider "Day t < daysIn (Year t) (Month t)"
    | "Day t = daysIn (Year t) (Month t)" "Month t < 12"
    | "Day t = daysIn (Year t) (Month t)" "Month t = 12"
    by linarith
  then show ?thesis
  proof cases
    case 1
    then show ?thesis by (simp add: next_day_def absDay_def Let_def)
  next
    case 2
    then show ?thesis
      using assms daysBefore_Suc [of "Month t" "Year t"]
      by (simp add: next_day_def absDay_def Let_def valid_time_def)
  next
    case 3
    then have d: "Day t = 31" by (simp add: daysIn_def)
    have "absDay t = 365 * (Year t - 1) + ((Year t - 1) div 4 - (Year t - 1) div 100
        + (Year t - 1) div 400) + (if isLeap (Year t) then 1 else 0) + 364"
      using 3 d by (simp add: absDay_def Let_def daysBefore_12)
    moreover have "absDay (next_day t) = 365 * Year t + (Year t div 4 - Year t div 100
        + Year t div 400)"
      using 3 d by (simp add: next_day_def absDay_def Let_def daysBefore_1)
    ultimately show ?thesis
      unfolding leap_days_step [of "Year t"] by (simp add: algebra_simps)
  qed
qed

lemma Weekday_next_day:
  assumes "valid_time t"
  shows "Weekday (next_day t) = weekday_of ((absDay t + 2) mod 7)"
  by (simp add: Weekday_def absDay_next_day [OF assms] add.commute)


section \<open>The placeholder batch: lemmas\<close>

lemma walk_stop: "i > 12 \<or> Month d \<noteq> Month T \<Longrightarrow> walk T d i req = (i, req)"
  by (simp add: walk.simps)

lemma walk_hit:
  "i \<le> 12 \<Longrightarrow> Month d = Month T \<Longrightarrow> valid_time d \<Longrightarrow> is_mwf d \<Longrightarrow>
   walk T d i req = walk T (next_day d) (i + 1)
     (req @ [makeReplaceRequest (day_key i) (Format_1_2 d),
             makeReplaceRequest (hours_key i) ''8''])"
  by (subst walk.simps) (auto simp: is_mwf_def AddDate_day)

lemma walk_miss:
  "i \<le> 12 \<Longrightarrow> Month d = Month T \<Longrightarrow> valid_time d \<Longrightarrow> \<not> is_mwf d \<Longrightarrow>
   walk T d i req = walk T (next_day d) i req"
  by (subst walk.simps) (auto simp: is_mwf_def AddDate_day)

lemma blank_stop: "i > 12 \<Longrightarrow> blank i req = req"
  by (simp add: blank.simps)

lemma blank_go:
  "i \<le> 12 \<Longrightarrow>
   blank i req = blank (i + 1)
     (req @ [makeReplaceRequest (day_key i) [], makeReplaceRequest (hours_key i) []])"
  by (subst blank.simps) simp

lemma days_from_last:
  "Day d = daysIn (Year d) (Month d) \<Longrightarrow> days_from d = [d]"
  by (simp add: days_from_def)

lemma days_from_step:
  "Day d < daysIn (Year d) (Month d) \<Longrightarrow> days_from d = d # days_from (next_day d)"
  by (simp add: days_from_def next_day_def upto_rec1 [of "Day d"])

lemma days_from_first: "Day T = 1 \<Longrightarrow> days_from T = month_days T"
  by (simp add: days_from_def month_days_def)

lemma next_day_leaves:
  "valid_time d \<Longrightarrow> Day d = daysIn (Year d) (Month d) \<Longrightarrow> Month (next_day d) \<noteq> Month d"
  by (auto simp: next_day_def valid_time_def)

lemma next_day_stays:
  "Day d < daysIn (Year d) (Month d) \<Longrightarrow> Month (next_day d) = Month d"
  by (auto simp: next_day_def)

text \<open>
  What the walk returns from any day \<open>d\<close> of the target month with slot index \<open>i\<close>:
  induction on the number of days left in the month.
\<close>

lemma walk_char:
  assumes "valid_time d" "Month d = Month T" "i \<le> 13"
    and "nat (daysIn (Year d) (Month d) - Day d) = n"
  shows "walk T d i req =
     (i + int (length (take (nat (13 - i)) (filter is_mwf (days_from d)))),
      req @ filled_slots i (take (nat (13 - i)) (filter is_mwf (days_from d))))"
  using assms
proof (induction n arbitrary: d i req)
  case 0
  then have last: "Day d = daysIn (Year d) (Month d)" by (simp add: valid_time_def)
  show ?case
  proof (cases "i > 12")
    case True
    with 0 show ?thesis by (simp add: walk_stop)
  next
    case False
    then have i: "i \<le> 12" by simp
    have out: "Month (next_day d) \<noteq> Month T"
      using next_day_leaves [OF "0.prems"(1) last] "0.prems"(2) by simp
    have t: "nat (13 - i) = Suc (nat (12 - i))" using i by simp
    show ?thesis
    proof (cases "is_mwf d")
      case True
      then show ?thesis
        using walk_hit [OF i "0.prems"(2) "0.prems"(1) True, of req] out
        by (simp add: walk_stop days_from_last [OF last] t makeReplaceRequest_def day_key_def
            hours_key_def)
    next
      case False
      then show ?thesis
        using walk_miss [OF i "0.prems"(2) "0.prems"(1) False, of req] out
        by (simp add: walk_stop days_from_last [OF last])
    qed
  qed
next
  case (Suc n)
  then have lt: "Day d < daysIn (Year d) (Month d)" by simp
  have v': "valid_time (next_day d)" using Suc.prems(1) by (rule valid_next_day)
  have m': "Month (next_day d) = Month T" using next_day_stays [OF lt] Suc.prems(2) by simp
  have n': "nat (daysIn (Year (next_day d)) (Month (next_day d)) - Day (next_day d)) = n"
    using Suc.prems(4) lt by (simp add: next_day_def)
  show ?case
  proof (cases "i > 12")
    case True
    with Suc.prems show ?thesis by (simp add: walk_stop)
  next
    case False
    then have i: "i \<le> 12" by simp
    have t: "nat (13 - i) = Suc (nat (13 - (i + 1)))" using i by simp
    show ?thesis
    proof (cases "is_mwf d")
      case True
      have i1: "i + 1 \<le> 13" using i by simp
      show ?thesis
        using walk_hit [OF i Suc.prems(2) Suc.prems(1) True, of req]
          Suc.IH [OF v' m' i1 n'] True
        by (simp add: days_from_step [OF lt] t makeReplaceRequest_def day_key_def hours_key_def)
    next
      case False
      show ?thesis
        using walk_miss [OF i Suc.prems(2) Suc.prems(1) False, of req]
          Suc.IH [OF v' m' Suc.prems(3) n'] False
        by (simp add: days_from_step [OF lt])
    qed
  qed
qed

lemma blank_char: "nat (13 - i) = n \<Longrightarrow> blank i req = req @ blank_slots [i..12]"
proof (induction n arbitrary: i req)
  case 0
  then show ?case by (simp add: blank_stop blank_slots_def)
next
  case (Suc n)
  then have i: "i \<le> 12" by simp
  have "blank i req = blank (i + 1)
      (req @ [makeReplaceRequest (day_key i) [], makeReplaceRequest (hours_key i) []])"
    using i by (subst blank.simps) simp
  also have "\<dots> = (req @ [makeReplaceRequest (day_key i) [],
      makeReplaceRequest (hours_key i) []]) @ blank_slots [i + 1..12]"
    using Suc.prems by (intro Suc.IH) simp
  finally show ?case using i
    by (simp add: blank_slots_def upto_rec1 [of i] makeReplaceRequest_def day_key_def
        hours_key_def)
qed

lemma placeholder_requests_char:
  assumes "valid_time T"
  shows "placeholder_requests T =
     header_requests T @ filled_slots 1 (spec_slot_dates T)
       @ [\<lparr>ContainsText = ''{{totalHours}}'',
           ReplaceText = Itoa (8 * int (length (spec_slot_dates T)))\<rparr>]
       @ blank_slots [int (length (spec_slot_dates T)) + 1..12]"
  using walk_char [OF assms refl, of 1 _ "header_requests T"]
  by (simp add: placeholder_requests_def spec_slot_dates_def blank_char [OF refl]
      makeReplaceRequest_def mult.commute add.commute [of 1])

lemma days_from_props:
  "d \<in> set (days_from T) \<Longrightarrow>
   Year d = Year T \<and> Month d = Month T \<and> Day T \<le> Day d
     \<and> Day d \<le> daysIn (Year T) (Month T)"
  by (auto simp: days_from_def)

lemma days_from_sorted: "sorted_wrt (\<lambda>a b. Day a < Day b) (days_from T)"
  by (simp add: days_from_def sorted_wrt_map)

lemma slot_dates_sorted: "sorted_wrt (\<lambda>a b. Day a < Day b) (spec_slot_dates T)"
  unfolding spec_slot_dates_def
  by (intro sorted_wrt_take sorted_wrt_filter days_from_sorted)

lemma slot_dates_props:
  "d \<in> set (spec_slot_dates T) \<Longrightarrow>
   Year d = Year T \<and> Month d = Month T \<and> is_mwf d
     \<and> Day T \<le> Day d \<and> Day d \<le> daysIn (Year T) (Month T)"
  unfolding spec_slot_dates_def using days_from_props [of d T]
  by (auto dest!: in_set_takeD)

lemma keys_filled:
  "map ContainsText (filled_slots i ds) = slot_keys [i..i + int (length ds) - 1]"
proof (induction ds arbitrary: i)
  case Nil
  then show ?case by (simp add: slot_keys_def)
next
  case (Cons d ds)
  have "[i..i + int (length (d # ds)) - 1] = i # [i + 1..i + 1 + int (length ds) - 1]"
    by (subst upto_rec1) (simp_all add: algebra_simps)
  then show ?case using Cons.IH [of "i + 1"]
    by (simp add: slot_keys_def day_key_def hours_key_def)
qed

lemma keys_blank: "map ContainsText (blank_slots js) = slot_keys js"
  by (induction js) (simp_all add: slot_keys_def blank_slots_def day_key_def hours_key_def)

lemma slot_keys_append: "slot_keys (xs @ ys) = slot_keys xs @ slot_keys ys"
  by (simp add: slot_keys_def)

lemma slot_keys_12:
  "slot_keys [1..12] =
    [''{{day1}}'', ''{{day1Hours}}'', ''{{day2}}'', ''{{day2Hours}}'',
     ''{{day3}}'', ''{{day3Hours}}'', ''{{day4}}'', ''{{day4Hours}}'',
     ''{{day5}}'', ''{{day5Hours}}'', ''{{day6}}'', ''{{day6Hours}}'',
     ''{{day7}}'', ''{{day7Hours}}'', ''{{day8}}'', ''{{day8Hours}}'',
     ''{{day9}}'', ''{{day9Hours}}'', ''{{day10}}'', ''{{day10Hours}}'',
     ''{{day11}}'', ''{{day11Hours}}'', ''{{day12}}'', ''{{day12Hours}}'']"
  by (simp add: slot_keys_def upto.simps day_key_def hours_key_def Itoa_def utoa.simps
      digit_def)

lemma count_keys:
  assumes "k \<le> 12"
  shows "count_list ([''{{year}}'', ''{{month}}'', ''{{day}}''] @ slot_keys [1..int k]
            @ [''{{totalHours}}''] @ slot_keys [int k + 1..12]) x
     = count_list ([''{{year}}'', ''{{month}}'', ''{{day}}'', ''{{totalHours}}'']
            @ slot_keys [1..12]) x"
proof -
  have "[1..12] = [1..int k] @ [int k + 1..12]"
  proof (cases "k = 0")
    case True
    then show ?thesis by simp
  next
    case False
    then show ?thesis using assms by (intro upto_split2) simp_all
  qed
  then show ?thesis by (simp add: slot_keys_append)
qed

lemma in_1_12:
  "(j::int) \<in> {1..12} \<Longrightarrow>
   j = 1 \<or> j = 2 \<or> j = 3 \<or> j = 4 \<or> j = 5 \<or> j = 6 \<or> j = 7 \<or> j = 8 \<or> j = 9 \<or> j = 10
     \<or> j = 11 \<or> j = 12"
  by (simp, arith)

lemma count_each:
  assumes "j \<in> {1..12}"
  shows "count_list ([''{{year}}'', ''{{month}}'', ''{{day}}'', ''{{totalHours}}'']
            @ slot_keys [1..12]) (day_key j) = 1"
    and "count_list ([''{{year}}'', ''{{month}}'', ''{{day}}'', ''{{totalHours}}'']
            @ slot_keys [1..12]) (hours_key j) = 1"
  using in_1_12 [OF assms]
  by (elim disjE;
      simp add: slot_keys_12 day_key_def hours_key_def Itoa_def utoa.simps digit_def)+

lemma count_list_distinct: "distinct xs \<Longrightarrow> x \<in> set xs \<Longrightarrow> count_list xs x = 1"
  by (induction xs) auto

lemma tokens_distinct:
  "distinct ([''{{year}}'', ''{{month}}'', ''{{day}}'', ''{{totalHours}}''] @ slot_tokens)"
  by (simp add: slot_tokens_def)

lemma count_token:
  assumes "key \<in> set slot_tokens"
  shows "count_list ([''{{year}}'', ''{{month}}'', ''{{day}}'', ''{{totalHours}}'']
            @ slot_keys [1..12]) key = 1"
proof -
  have e: "slot_keys [1..12] = slot_tokens" by (simp only: slot_keys_12 slot_tokens_def)
  have "key \<in> set ([''{{year}}'', ''{{month}}'', ''{{day}}'', ''{{totalHours}}'']
      @ slot_tokens)"
    using assms by simp
  with tokens_distinct show ?thesis unfolding e by (rule count_list_distinct)
qed

lemma placeholder_keys:
  assumes "valid_time T"
  shows "map ContainsText (placeholder_requests T) =
     [''{{year}}'', ''{{month}}'', ''{{day}}'']
       @ slot_keys [1..int (length (spec_slot_dates T))]
       @ [''{{totalHours}}''] @ slot_keys [int (length (spec_slot_dates T)) + 1..12]"
  by (simp add: placeholder_requests_char [OF assms] header_requests_def keys_filled
      keys_blank makeReplaceRequest_def)

lemma slot_dates_length: "length (spec_slot_dates T) \<le> 12"
  by (simp add: spec_slot_dates_def)

lemma Date_Feb_2024: "Date 2024 2 1 0 = \<lparr>Year = 2024, Month = 2, Day = 1, Secs = 0\<rparr>"
  by (simp add: Date_def add_days_def)

text \<open>
  Every month has four full weeks, hence at least twelve Mondays, Wednesdays and
  Fridays: all twelve slots are filled in every month.
\<close>

lemma absDay_Day: "absDay (T\<lparr>Day := k\<rparr>) = absDay T - Day T + k"
  by (simp add: absDay_def Let_def)

lemma is_mwf_Day:
  assumes "Day T = 1"
  shows "is_mwf (T\<lparr>Day := k\<rparr>) =
     (let r = (absDay T mod 7 + k) mod 7 in r = 1 \<or> r = 3 \<or> r = 5)"
proof -
  have "(absDay (T\<lparr>Day := k\<rparr>) + 1) mod 7 = (absDay T mod 7 + k) mod 7"
    using assms by (simp add: absDay_Day mod_add_left_eq)
  moreover have "0 \<le> (absDay T mod 7 + k) mod 7" "(absDay T mod 7 + k) mod 7 < 7" by simp_all
  ultimately show ?thesis
    by (auto simp: is_mwf_def Weekday_def weekday_of_def Let_def)
qed

lemma mwf_in_four_weeks:
  assumes "0 \<le> a" "a < 7"
  shows "length (filter (\<lambda>k. let r = (a + k) mod 7 in r = 1 \<or> r = 3 \<or> r = 5) [1..28]) = 12"
proof -
  have "a = 0 \<or> a = 1 \<or> a = 2 \<or> a = 3 \<or> a = 4 \<or> a = 5 \<or> a = 6"
    using assms by arith
  then show ?thesis
    by (elim disjE) (simp_all add: upto.simps Let_def)
qed

lemma twelve_slots:
  assumes "valid_time T" "Day T = 1"
  shows "length (spec_slot_dates T) = 12"
proof -
  have n: "daysIn (Year T) (Month T) \<ge> 28" by (rule daysIn_bounds)
  then have s: "[1..daysIn (Year T) (Month T)] = [1..28] @ [29..daysIn (Year T) (Month T)]"
    using upto_split2 [of 1 28 "daysIn (Year T) (Month T)"] by simp
  have "filter is_mwf (map (\<lambda>k. T\<lparr>Day := k\<rparr>) [1..28])
      = map (\<lambda>k. T\<lparr>Day := k\<rparr>)
          (filter (\<lambda>k. let r = (absDay T mod 7 + k) mod 7 in r = 1 \<or> r = 3 \<or> r = 5) [1..28])"
    by (simp add: filter_map o_def is_mwf_Day [OF assms(2)] del: upto.simps)
  then have "length (filter is_mwf (map (\<lambda>k. T\<lparr>Day := k\<rparr>) [1..28])) = 12"
    using mwf_in_four_weeks [of "absDay T mod 7"] by simp
  then have "12 \<le> length (filter is_mwf (month_days T))"
    unfolding month_days_def s by simp
  then show ?thesis by (simp add: spec_slot_dates_def days_from_first [OF assms(2)])
qed


section \<open>Target month and header requests: lemmas\<close>

lemma utoa_small: "n < 10 \<Longrightarrow> utoa n = [digit n]"
  by (simp add: utoa.simps)

lemma utoa_big: "10 \<le> n \<Longrightarrow> utoa n = utoa (n div 10) @ [digit n]"
  by (subst utoa.simps) simp

lemma digit_zero: "digit 0 = CHR ''0''"
  by (simp add: digit_def)

lemma replicate_pad:
  "replicate (4 - Suc 0) c = [c, c, c]" "replicate (4 - Suc (Suc 0)) c = [c, c]"
  "replicate (4 - Suc (Suc (Suc 0))) c = [c]" "replicate 3 c = [c, c, c]" "replicate 2 c = [c, c]"
  by (simp_all add: numeral_eq_Suc)

lemma utoa_4:
  assumes "n \<le> 9999"
  shows "replicate (4 - length (utoa n)) CHR ''0'' @ utoa n
           = [digit (n div 1000), digit (n div 100), digit (n div 10), digit n]"
proof -
  consider "n < 10" | "10 \<le> n" "n < 100" | "100 \<le> n" "n < 1000" | "1000 \<le> n"
    by linarith
  then show ?thesis
  proof cases
    case 1
    then show ?thesis by (simp add: utoa_small digit_zero replicate_pad)
  next
    case 2
    then have "n div 10 < 10" by simp
    with 2 show ?thesis by (simp add: utoa_big [of n] utoa_small digit_zero replicate_pad)
  next
    case 3
    then have a: "10 \<le> n" "10 \<le> n div 10" "n div 10 div 10 < 10" by simp_all
    have b: "n div 1000 = 0" "n div 10 div 10 = n div 100" using 3 by (simp_all add: div_mult2_eq [symmetric])
    show ?thesis using a b
      by (simp add: utoa_big [of n] utoa_big [of "n div 10"] utoa_small digit_zero replicate_pad)
  next
    case 4
    have d: "n div 100 div 10 = n div 1000" "n div 10 div 10 = n div 100"
      by (simp_all add: div_mult2_eq [symmetric])
    have u3: "utoa (n div 1000) = [digit (n div 1000)]"
      using assms by (intro utoa_small) simp
    have u2: "utoa (n div 100) = utoa (n div 1000) @ [digit (n div 100)]"
      using utoa_big [of "n div 100"] 4 by (simp add: d)
    have u1: "utoa (n div 10) = utoa (n div 100) @ [digit (n div 10)]"
      using utoa_big [of "n div 10"] 4 by (simp add: d)
    have u0: "utoa n = utoa (n div 10) @ [digit n]"
      using utoa_big [of n] 4 by simp
    show ?thesis by (simp add: u0 u1 u2 u3)
  qed
qed

lemma Format_2006_digits:
  assumes "0 \<le> Year t" "Year t \<le> 9999"
  shows "Format_2006 t = [digit (nat (Year t) div 1000), digit (nat (Year t) div 100),
                          digit (nat (Year t) div 10), digit (nat (Year t))]"
  using assms utoa_4 [of "nat (Year t)"] by (simp add: Format_2006_def appendInt_def)

lemma Format_1_month:
  assumes "1 \<le> Month t" "Month t \<le> 12"
  shows "Format_1 t = (if Month t < 10 then [digit (nat (Month t))]
                       else [CHR ''1'', digit (nat (Month t))])"
proof (cases "Month t < 10")
  case True
  then show ?thesis using assms by (simp add: Format_1_def appendInt_def utoa_small)
next
  case False
  then have "nat (Month t) div 10 = 1" "10 \<le> nat (Month t)" using assms by simp_all
  then show ?thesis using False assms
    by (simp add: Format_1_def appendInt_def utoa_big utoa_small digit_def)
qed

lemma target_month_eq:
  assumes "valid_time t"
  shows "target_month t = \<lparr>Year = Year t, Month = Month t, Day = 1, Secs = 0\<rparr>"
proof -
  have "(Month t - 1) div 12 = 0" "(Month t - 1) mod 12 + 1 = Month t"
    using assms by (auto simp: valid_time_def)
  then show ?thesis by (simp add: target_month_def Date_def add_days_def)
qed

lemma last_day_of_month:
  assumes "valid_time T" "Day T = 1"
  shows "AddDate 0 1 (- 1) T = T\<lparr>Day := daysIn (Year T) (Month T)\<rparr>"
proof (cases "Month T < 12")
  case True
  then have "Month T div 12 = 0" "Month T mod 12 = Month T"
    using assms by (auto simp: valid_time_def)
  then show ?thesis using assms True
    by (simp add: AddDate_def Date_def add_days_def prev_day_def valid_time_def)
next
  case False
  then have "Month T = 12" using assms by (simp add: valid_time_def)
  then show ?thesis using assms
    by (simp add: AddDate_def Date_def add_days_def prev_day_def valid_time_def daysIn_def)
qed

lemma Format_2_Itoa: "0 \<le> Day t \<Longrightarrow> Format_2 t = Itoa (Day t)"
  by (simp add: Format_2_def appendInt_def Itoa_def)

lemma placeholder_requests_header:
  assumes "valid_time T"
  shows "take 3 (placeholder_requests T) = header_requests T"
  by (simp add: placeholder_requests_char [OF assms] header_requests_def)

lemma Itoa_two_digits:
  assumes "10 \<le> n" "n < 100"
  shows "Itoa n = [digit (nat n div 10), digit (nat n)]"
proof -
  have "10 \<le> nat n" "nat n div 10 < 10" using assms by simp_all
  then show ?thesis using assms by (simp add: Itoa_def utoa_big utoa_small)
qed

section \<open>WorkDayExtractor: lemmas\<close>

lemma collect_char:
  "collect_work_days P T c items acc = Inr days \<Longrightarrow> days = acc @ spec_work_days P T c items"
proof (induction items arbitrary: acc)
  case Nil
  then show ?case by (simp add: spec_work_days_def)
next
  case (Cons item items)
  show ?case
  proof (cases "event_date P item")
    case (Inl e)
    with Cons.prems show ?thesis by simp
  next
    case (Inr d)
    show ?thesis
    proof (cases "Summary item = WorkDayTitle c \<and> Year d = Year T \<and> Month d = Month T")
      case True
      then have "collect_work_days P T c items (acc @ [d]) = Inr days"
        using Cons.prems Inr by simp
      from Cons.IH [OF this] show ?thesis using Inr True by (simp add: spec_work_days_def)
    next
      case False
      then have "collect_work_days P T c items acc = Inr days"
        using Cons.prems Inr by (auto split: if_splits)
      from Cons.IH [OF this] show ?thesis using Inr False by (auto simp: spec_work_days_def)
    qed
  qed
qed

lemma collect_parses:
  "collect_work_days P T c items acc = Inr days \<Longrightarrow> item \<in> set items \<Longrightarrow>
   \<exists>d. event_date P item = Inr d"
proof (induction items arbitrary: acc)
  case Nil
  then show ?case by simp
next
  case (Cons a items)
  then show ?case
    by (auto split: sum.splits if_splits)
qed

lemma collect_returns:
  "(\<And>item. item \<in> set items \<Longrightarrow> \<exists>d. event_date P item = Inr d) \<Longrightarrow>
   \<exists>days. collect_work_days P T c items acc = Inr days"
proof (induction items arbitrary: acc)
  case Nil
  then show ?case by simp
next
  case (Cons a items)
  from Cons.prems [of a] obtain d where d: "event_date P a = Inr d" by auto
  have rest: "\<And>item. item \<in> set items \<Longrightarrow> \<exists>d. event_date P item = Inr d"
    using Cons.prems by simp
  show ?case using d Cons.IH [OF rest] by simp
qed

lemma getWorkDays_items:
  assumes "fst (getWorkDays P w T c) = Inr days"
  shows "collect_work_days P T c (Calendar w (CalendarID c) (AddDate 0 (- 1) (- 1) T)) [] = Inr days"
  using assms
  by (auto simp: getWorkDays_def new_service_def events_list_def remote_eq
      split: prod.splits option.splits if_splits)

lemma spec_work_days_set:
  "set (spec_work_days P T c items) =
     {d. \<exists>item \<in> set items. event_date P item = Inr d \<and> Summary item = WorkDayTitle c
          \<and> Year d = Year T \<and> Month d = Month T}"
  by (auto simp: spec_work_days_def split: sum.splits if_splits)

lemma demo_parse:
  "Parse_RFC3339 ''2024-02-03T09:00:00+09:00'' = Some \<lparr>Year = 2024, Month = 2, Day = 3, Secs = 32400\<rparr>"
  "Parse_2006_01_02 ''2024-02-10'' = Some \<lparr>Year = 2024, Month = 2, Day = 10, Secs = 0\<rparr>"
  "Parse_2006_01_02 ''2024-02-11'' = Some \<lparr>Year = 2024, Month = 2, Day = 11, Secs = 0\<rparr>"
  "Parse_2006_01_02 ''2024-01-31'' = Some \<lparr>Year = 2024, Month = 1, Day = 31, Secs = 0\<rparr>"
  "Parse_2006_01_02 ''2024-02-03'' = Some \<lparr>Year = 2024, Month = 2, Day = 3, Secs = 0\<rparr>"
  by (simp_all add: Parse_RFC3339_def Parse_2006_01_02_def zone_ok_def skip_fraction_def
      digit_val_def valid_time_def daysIn_def isLeap_def)

lemma demo_getWorkDays:
  "fst (getWorkDays go_parsers demo_world feb_2024 demo_config) =
     Inr [\<lparr>Year = 2024, Month = 2, Day = 3, Secs = 32400\<rparr>,
          \<lparr>Year = 2024, Month = 2, Day = 10, Secs = 0\<rparr>,
          \<lparr>Year = 2024, Month = 2, Day = 3, Secs = 0\<rparr>]"
  by (simp add: getWorkDays_def new_service_def events_list_def remote_def demo_world_def
      demo_config_def demo_events_def feb_2024_def event_date_def go_parsers_def demo_parse)

lemma getWorkDays_returns:
  assumes "Faults w = []"
    and "\<And>item. item \<in> set (Calendar w (CalendarID c) (AddDate 0 (- 1) (- 1) T))
           \<Longrightarrow> \<exists>d. event_date P item = Inr d"
  shows "\<exists>days. fst (getWorkDays P w T c) = Inr days"
  using collect_returns [of "Calendar w (CalendarID c) (AddDate 0 (- 1) (- 1) T)" P T c "[]"]
    assms
  by (auto simp: getWorkDays_def new_service_def events_list_def remote_eq next_ok_def)

lemma Parse_RFC3339_examples:
  "Parse_RFC3339 ''2024-02-03T09:00:00.500+09:00''
     = Some \<lparr>Year = 2024, Month = 2, Day = 3, Secs = 32400\<rparr>"
  "Parse_RFC3339 ''2024-02-03T09:00:00Z''
     = Some \<lparr>Year = 2024, Month = 2, Day = 3, Secs = 32400\<rparr>"
  "Parse_RFC3339 ''2024-02-03T09:00:00+99:99'' = None"
  "Parse_RFC3339 ''2024-02-03T09:00:00.+09:00'' = None"
  "Parse_RFC3339 ''2024-02-30T09:00:00+09:00'' = None"
  by (simp_all add: Parse_RFC3339_def Parse_2006_01_02_def zone_ok_def skip_fraction_def
      digit_val_def valid_time_def daysIn_def isLeap_def)


section \<open>The attendance column: lemmas\<close>

lemma day_value_eq:
  "day_value T c i ws =
     (if \<exists>d \<in> set ws. Year d = Year T \<and> Month d = Month T \<and> Day d = i
      then WorkStartTime c else [])"
  by (induction ws) auto

lemma work_times_char:
  "nat (32 - i) = n \<Longrightarrow>
   work_times T ws c i vals = vals @ map (\<lambda>j. [day_value T c j ws]) [i..31]"
proof (induction n arbitrary: i vals)
  case 0
  then show ?case by (simp add: work_times.simps)
next
  case (Suc n)
  then have i: "i \<le> 31" by simp
  have "work_times T ws c i vals = work_times T ws c (i + 1) (vals @ [[day_value T c i ws]])"
    using i by (subst work_times.simps) simp
  also have "\<dots> = (vals @ [[day_value T c i ws]]) @ map (\<lambda>j. [day_value T c j ws]) [i + 1..31]"
    using Suc.prems by (intro Suc.IH) simp
  finally show ?case using i by (simp add: upto_rec1 [of i])
qed


section \<open>SpreadsheetSynchronizer: lemmas on the target page\<close>

lemma find_target_none:
  "title \<notin> set (map Title ss) \<Longrightarrow> find_target title ss acc = acc"
  by (induction ss arbitrary: acc) auto

lemma find_copy_from_none:
  "title \<notin> set (map Title ss) \<Longrightarrow> find_copy_from title ss = None"
  by (induction ss) auto

lemma find_copy_from_Some:
  "find_copy_from title ss = Some p \<Longrightarrow> p \<in> set ss \<and> Title p = title"
  by (induction ss) (auto split: if_splits)

lemma find_target_all_zero:
  "\<forall>s \<in> set ss. Title s = title \<longrightarrow> SheetId s = 0 \<Longrightarrow> find_target title ss 0 = 0"
  by (induction ss) auto

lemma distinct_titles:
  "distinct (map Title ss) \<Longrightarrow> s \<in> set ss \<Longrightarrow> s' \<in> set ss \<Longrightarrow> Title s' = Title s \<Longrightarrow> s' = s"
  by (induction ss) (auto simp: image_iff)

lemma fold_max_ge: "(x::int) \<in> set xs \<Longrightarrow> x \<le> fold max xs a"
proof (induction xs arbitrary: a)
  case Nil
  then show ?case by simp
next
  case (Cons y ys)
  have mono: "\<And>b. b \<le> fold max ys b"
  proof -
    fix b show "b \<le> fold max ys b"
    proof (induction ys arbitrary: b)
      case Nil
      then show ?case by simp
    next
      case (Cons z zs)
      have "b \<le> max z b" by simp
      also have "\<dots> \<le> fold max zs (max z b)" by (rule Cons.IH)
      finally show ?case by simp
    qed
  qed
  show ?case
  proof (cases "x = y")
    case True
    have "y \<le> max y a" by simp
    also have "\<dots> \<le> fold max ys (max y a)" by (rule mono)
    finally show ?thesis using True by simp
  next
    case False
    then show ?thesis using Cons by simp
  qed
qed

lemma fresh_id_fresh: "fresh_id c used \<notin> set used"
proof (cases "c \<in> set used")
  case True
  have "1 + fold max used 0 \<notin> set used"
  proof
    assume "1 + fold max used 0 \<in> set used"
    from fold_max_ge [OF this, of 0] show False by simp
  qed
  then show ?thesis using True by (simp add: fresh_id_def)
next
  case False
  then show ?thesis by (simp add: fresh_id_def)
qed

lemma find_id_Some: "p \<in> set ss \<Longrightarrow> \<exists>src. find (\<lambda>s. SheetId s = SheetId p) ss = Some src"
  by (induction ss) auto

lemma find_append_last: "\<forall>x \<in> set xs. \<not> P x \<Longrightarrow> P y \<Longrightarrow> find P (xs @ [y]) = Some y"
  by (induction xs) auto

lemma remove_first_append_last:
  "\<forall>x \<in> set xs. \<not> P x \<Longrightarrow> P y \<Longrightarrow> remove_first P (xs @ [y]) = xs"
  by (induction xs) auto

lemma target_sheet_zero_copy:
  assumes ss: "Spreadsheets w sid = Some ss"
    and z: "find_target (Format_200601 T) (Sheets ss) 0 = 0"
    and t: "Format_200601 T \<in> set (map Title (Sheets ss))"
    and p: "find_copy_from (Format_200601 (AddDate 0 (- 1) 0 T)) (Sheets ss) = Some p"
  shows "\<exists>msg w'. target_sheet w T sid ss = (Inl (Fatal msg), w')
     \<and> (Calls w' = Calls w @ [SheetsCopyTo sid (SheetId p) sid]
      \<or> Calls w' = Calls w @ [SheetsCopyTo sid (SheetId p) sid,
           UpdateSheetProperties sid (fresh_id (NewSheetId w ss) (map SheetId (Sheets ss)))
             (Format_200601 T) 0])
     \<and> LocalFiles w' = LocalFiles w"
proof -
  obtain src where src: "find (\<lambda>s. SheetId s = SheetId p) (Sheets ss) = Some src"
    using find_id_Some find_copy_from_Some [OF p] by blast
  let ?n = "fresh_id (NewSheetId w ss) (map SheetId (Sheets ss))"
  have nf: "\<forall>x \<in> set (Sheets ss). \<not> SheetId x = ?n"
    using fresh_id_fresh [of "NewSheetId w ss" "map SheetId (Sheets ss)"]
    by (metis image_eqI list.set_map)
  let ?new = "\<lparr>SheetId = ?n, Title = CopyTitle w (Title src), Cells = Cells src\<rparr>"
  have f: "find (\<lambda>s. SheetId s = ?n) (Sheets ss @ [?new]) = Some ?new"
    using nf by (intro find_append_last) simp_all
  have r: "remove_first (\<lambda>s. SheetId s = ?n) (Sheets ss @ [?new]) = Sheets ss"
    using nf by (intro remove_first_append_last) simp_all
  show ?thesis
    using ss z t p src f r
    by (simp add: target_sheet_def sheets_copyTo_def update_sheet_properties_def remote_eq Let_def)
qed

lemma sync_get_failed:
  "\<not> next_ok w \<Longrightarrow>
   sync_spreadsheet w T workDays c sid =
     (Inl (Fatal ''Failed to get spreadsheet''),
      w\<lparr>Calls := Calls w @ [SpreadsheetsGet sid], Faults := tl (Faults w)\<rparr>)"
  by (simp add: sync_spreadsheet_def spreadsheets_get_def remote_eq)

lemma sync_target_failed:
  assumes "next_ok w" "Spreadsheets w sid = Some ss"
    and "target_sheet (w\<lparr>Calls := Calls w @ [SpreadsheetsGet sid], Faults := tl (Faults w)\<rparr>)
           T sid ss = (Inl e, w')"
  shows "sync_spreadsheet w T workDays c sid = (Inl e, w')"
  using assms by (simp add: sync_spreadsheet_def spreadsheets_get_def remote_eq)

lemma Format_200601_examples:
  "Format_200601 feb_2024 = ''202402''"
  "Format_200601 apr_2024 = ''202404''"
  "Format_200601 (AddDate 0 (- 1) 0 feb_2024) = ''202401''"
  "Format_200601 (AddDate 0 (- 1) 0 apr_2024) = ''202403''"
  by (simp_all add: Format_200601_def feb_2024_def apr_2024_def appendInt_def utoa.simps
      digit_def AddDate_def Date_def add_days_def)


section \<open>SpreadsheetSynchronizer: lemmas on the written cells\<close>

lemma digit_in: "digit n \<in> set ''0123456789''"
proof -
  have "n mod 10 < length ''0123456789''" by simp
  then show ?thesis unfolding digit_def by (rule nth_mem)
qed

lemma utoa_digits: "set (utoa n) \<subseteq> set ''0123456789''"
proof (induction n rule: utoa.induct)
  case (1 n)
  show ?case
  proof (cases "n < 10")
    case True
    then show ?thesis using digit_in [of n] by (subst utoa.simps) simp
  next
    case False
    then show ?thesis using 1 digit_in [of n] by (subst utoa.simps) simp
  qed
qed

lemma appendInt_no_bang: "CHR ''!'' \<notin> set (appendInt x k)"
  using utoa_digits [of "nat \<bar>x\<bar>"] by (auto simp: appendInt_def Let_def)

lemma split_range_title:
  "CHR ''!'' \<notin> set title \<Longrightarrow> split_range (title @ CHR ''!'' # cells) = Some (title, cells)"
  by (induction title) (auto simp: split_range_def)

lemma split_range_target:
  "split_range (Format_200601 T @ ''!M3:M3'') = Some (Format_200601 T, ''M3:M3'')"
  "split_range (Format_200601 T @ ''!D7:D37'') = Some (Format_200601 T, ''D7:D37'')"
proof -
  have "CHR ''!'' \<notin> set (Format_200601 T)"
    using appendInt_no_bang by (simp add: Format_200601_def)
  then show "split_range (Format_200601 T @ ''!M3:M3'') = Some (Format_200601 T, ''M3:M3'')"
    "split_range (Format_200601 T @ ''!D7:D37'') = Some (Format_200601 T, ''D7:D37'')"
    by (rule split_range_title)+
qed

lemma find_update_first_same:
  "find (\<lambda>s. Title s = t) (update_first (\<lambda>s. Title s = t) (\<lambda>s. s\<lparr>Cells := g s\<rparr>) xs)
     = map_option (\<lambda>s. s\<lparr>Cells := g s\<rparr>) (find (\<lambda>s. Title s = t) xs)"
  by (induction xs) auto

lemma find_update_first_other:
  "t' \<noteq> t \<Longrightarrow>
   find (\<lambda>s. Title s = t') (update_first (\<lambda>s. Title s = t) (\<lambda>s. s\<lparr>Cells := g s\<rparr>) xs)
     = find (\<lambda>s. Title s = t') xs"
  by (induction xs) auto

lemma find_title_Some: "t \<in> set (map Title xs) \<Longrightarrow> \<exists>s. find (\<lambda>s. Title s = t) xs = Some s"
  by (induction xs) auto

lemma cell_values_update:
  assumes "split_range rng = Some (t, cs)"
  shows "cell_values (snd (values_update w sid rng v)) sid' t' cs' =
     (if fst (values_update w sid rng v) = Some () \<and> sid' = sid \<and> t' = t \<and> cs' = cs
      then Some v else cell_values w sid' t' cs')"
proof (cases "fst (values_update w sid rng v) = Some ()")
  case False
  then have "Spreadsheets (snd (values_update w sid rng v)) = Spreadsheets w"
    by (auto simp: values_update_def remote_eq assms split: option.splits if_splits)
  then show ?thesis using False by (simp add: cell_values_def)
next
  case True
  then obtain ss where ss: "Spreadsheets w sid = Some ss" "t \<in> set (map Title (Sheets ss))"
    by (auto simp: values_update_def remote_eq assms split: option.splits if_splits)
  from find_title_Some [OF ss(2)] obtain s where s: "find (\<lambda>s. Title s = t) (Sheets ss) = Some s"
    by blast
  have sp: "Spreadsheets (snd (values_update w sid rng v)) =
      (Spreadsheets w)(sid \<mapsto> ss\<lparr>Sheets := update_first (\<lambda>s. Title s = t)
         (\<lambda>s. s\<lparr>Cells := (Cells s)(cs \<mapsto> v)\<rparr>) (Sheets ss)\<rparr>)"
    using True ss by (auto simp: values_update_def remote_eq assms split: option.splits if_splits)
  show ?thesis
  proof (cases "sid' = sid")
    case False
    then show ?thesis by (simp add: cell_values_def sp)
  next
    case sid: True
    show ?thesis
    proof (cases "t' = t")
      case False
      then show ?thesis using sid ss
        by (simp add: cell_values_def sp find_update_first_other)
    next
      case t: True
      show ?thesis using sid t ss s True
        by (simp add: cell_values_def sp find_update_first_same)
    qed
  qed
qed

lemma find_append_keep: "find P xs = Some x \<Longrightarrow> find P (xs @ ys) = Some x"
  by (induction xs) (auto split: if_splits)

lemma cell_values_copy:
  assumes "cell_values w sid' t' cs' = Some v"
  shows "cell_values (snd (sheets_copyTo w sid i dest)) sid' t' cs' = Some v"
proof -
  obtain ss s where ss: "Spreadsheets w sid' = Some ss"
    and s: "find (\<lambda>s. Title s = t') (Sheets ss) = Some s" and c: "Cells s cs' = Some v"
    using assms by (auto simp: cell_values_def split: option.splits)
  show ?thesis
    using ss s c
    by (auto simp: sheets_copyTo_def remote_eq cell_values_def Let_def find_append_keep
        split: option.splits)
qed

lemma find_removed:
  assumes "find P xs = Some p" "find Q xs = Some s" "\<not> (\<exists>x \<in> set (remove_first Q xs). P x)"
  shows "p = s"
  using assms
proof (induction xs)
  case Nil
  then show ?case by simp
next
  case (Cons x xs)
  then show ?case
    by (auto split: if_splits dest: find_Some_iff [THEN iffD1])
qed

lemma find_append_none: "\<forall>x \<in> set xs. \<not> P x \<Longrightarrow> find P (xs @ ys) = find P ys"
  by (induction xs) auto

lemma find_insert_unique:
  assumes "\<not> (\<exists>x \<in> set others. P x)" "P y"
  shows "find P (take k others @ [y] @ drop k others) = Some y"
proof -
  have "\<forall>x \<in> set (take k others). \<not> P x" using assms(1) by (auto dest: in_set_takeD)
  from find_append_none [OF this] show ?thesis using assms(2) by simp
qed

lemma cell_values_rename:
  assumes "cell_values w sid' t cs' = Some v"
  shows "cell_values (snd (update_sheet_properties w sid i t k)) sid' t cs' = Some v"
proof (cases "fst (update_sheet_properties w sid i t k) = Some ()")
  case False
  then have "Spreadsheets (snd (update_sheet_properties w sid i t k)) = Spreadsheets w"
    by (auto simp: update_sheet_properties_def remote_eq Let_def split: option.splits if_splits)
  then show ?thesis using assms by (simp add: cell_values_def)
next
  case True
  then obtain ss s where ss: "Spreadsheets w sid = Some ss"
    and s: "find (\<lambda>s. SheetId s = i) (Sheets ss) = Some s"
    and o: "t \<notin> set (map Title (remove_first (\<lambda>s. SheetId s = i) (Sheets ss)))"
    and ok: "next_ok w"
    by (auto simp: update_sheet_properties_def remote_eq Let_def split: option.splits if_splits)
  have sp: "Spreadsheets (snd (update_sheet_properties w sid i t k)) =
      (Spreadsheets w)(sid \<mapsto> ss\<lparr>Sheets :=
         take k (remove_first (\<lambda>s. SheetId s = i) (Sheets ss)) @ [s\<lparr>Title := t\<rparr>]
           @ drop k (remove_first (\<lambda>s. SheetId s = i) (Sheets ss))\<rparr>)"
    using ss s o ok by (simp add: update_sheet_properties_def remote_eq Let_def)
  have no: "\<not> (\<exists>x \<in> set (remove_first (\<lambda>s. SheetId s = i) (Sheets ss)). Title x = t)"
    using o by auto
  show ?thesis
  proof (cases "sid' = sid")
    case False
    then show ?thesis using assms by (simp add: cell_values_def sp)
  next
    case True
    then obtain p where p: "find (\<lambda>s. Title s = t) (Sheets ss) = Some p" "Cells p cs' = Some v"
      using assms ss by (auto simp: cell_values_def split: option.splits)
    have "p = s" using find_removed [OF p(1) s no] .
    moreover have "find (\<lambda>s. Title s = t)
        (take k (remove_first (\<lambda>s. SheetId s = i) (Sheets ss)) @ [s\<lparr>Title := t\<rparr>]
           @ drop k (remove_first (\<lambda>s. SheetId s = i) (Sheets ss))) = Some (s\<lparr>Title := t\<rparr>)"
      using no by (intro find_insert_unique) simp_all
    ultimately show ?thesis using True p(2) by (simp add: cell_values_def sp)
  qed
qed

lemma other_calls_spreadsheets [simp]:
  "Spreadsheets (snd (spreadsheets_get w sid)) = Spreadsheets w"
  "Spreadsheets (snd (export_sheet w sid gid)) = Spreadsheets w"
  "Spreadsheets (snd (read_all w body)) = Spreadsheets w"
  "Spreadsheets (snd (write_file w name data)) = Spreadsheets w"
  "Spreadsheets (snd (new_service w name)) = Spreadsheets w"
  by (simp_all add: spreadsheets_get_def export_sheet_def read_all_def write_file_def
      new_service_def remote_eq)

lemma written_copy:
  "written w T ws c sid0 \<Longrightarrow> written (snd (sheets_copyTo w sid i dest)) T ws c sid0"
  by (simp add: written_def cell_values_copy)

lemma written_rename:
  "written w T ws c sid0 \<Longrightarrow>
   written (snd (update_sheet_properties w sid i (Format_200601 T) k)) T ws c sid0"
  by (simp add: written_def cell_values_rename)

lemma written_update_M3:
  "written w T ws c sid0 \<Longrightarrow>
   written (snd (values_update w sid (Format_200601 T @ ''!M3:M3'') [[Format_2006_01_02 T]]))
     T ws c sid0"
  by (simp add: written_def cell_values_update [OF split_range_target(1)])

lemma written_update_D7:
  "written w T ws c sid0 \<Longrightarrow>
   written (snd (values_update w sid (Format_200601 T @ ''!D7:D37'') (work_times T ws c 1 [])))
     T ws c sid0"
  by (simp add: written_def cell_values_update [OF split_range_target(2)])

lemma written_other_calls [simp]:
  "written (snd (spreadsheets_get w sid)) T ws c s0 = written w T ws c s0"
  "written (snd (export_sheet w sid gid)) T ws c s0 = written w T ws c s0"
  "written (snd (read_all w body)) T ws c s0 = written w T ws c s0"
  "written (snd (write_file w name data)) T ws c s0 = written w T ws c s0"
  "written (snd (new_service w name)) T ws c s0 = written w T ws c s0"
  by (simp_all add: written_def cell_values_def)

lemma written_target_sheet:
  "written w T ws c sid0 \<Longrightarrow> written (snd (target_sheet w T sid ss)) T ws c sid0"
  by (simp add: target_sheet_def Let_def split_beta written_copy written_rename
      split: option.splits)

lemma written_write_and_export:
  "written w T ws c sid0 \<Longrightarrow>
   written (snd (write_and_export w T ws c sid ss i)) T ws c sid0"
  by (simp add: write_and_export_def split_beta written_update_M3 written_update_D7
      split: option.splits)

lemma written_sync_spreadsheet:
  "written w T ws c sid0 \<Longrightarrow> written (snd (sync_spreadsheet w T ws c sid)) T ws c sid0"
  by (simp add: sync_spreadsheet_def split_beta written_target_sheet written_write_and_export
      split: option.splits sum.splits)

lemma written_sync_all:
  "written w T ws c sid0 \<Longrightarrow> written (snd (sync_all w T ws c ids)) T ws c sid0"
proof (induction ids arbitrary: w)
  case Nil
  then show ?case by simp
next
  case (Cons sid ids)
  have 1: "written (snd (sync_spreadsheet w T ws c sid)) T ws c sid0"
    using Cons.prems by (rule written_sync_spreadsheet)
  show ?case
  proof (cases "fst (sync_spreadsheet w T ws c sid)")
    case (Inl e)
    then show ?thesis using 1 by (simp add: split_beta)
  next
    case (Inr u)
    then show ?thesis using Cons.IH [OF 1] by (simp add: split_beta)
  qed
qed

lemma written_run:
  "written w T ws c sid0 \<Longrightarrow>
   written (snd (updateAndDownloadWorkSpreadsheets w T ws c)) T ws c sid0"
  by (simp add: updateAndDownloadWorkSpreadsheets_def split_beta written_sync_all
      split: option.splits)

lemma write_and_export_success:
  assumes "fst (write_and_export w T ws c sid ss i) = Inr ()"
  shows "written (snd (write_and_export w T ws c sid ss i)) T ws c sid"
proof -
  let ?w1 = "snd (values_update w sid (Format_200601 T @ ''!M3:M3'') [[Format_2006_01_02 T]])"
  let ?w2 = "snd (values_update ?w1 sid (Format_200601 T @ ''!D7:D37'') (work_times T ws c 1 []))"
  have 1: "fst (values_update w sid (Format_200601 T @ ''!M3:M3'') [[Format_2006_01_02 T]])
      = Some ()"
    using assms by (auto simp: write_and_export_def split_beta split: option.splits)
  have 2: "fst (values_update ?w1 sid (Format_200601 T @ ''!D7:D37'') (work_times T ws c 1 []))
      = Some ()"
    using assms by (auto simp: write_and_export_def split_beta split: option.splits)
  have "written ?w2 T ws c sid"
    using 1 2
    by (simp add: written_def cell_values_update [OF split_range_target(1)]
        cell_values_update [OF split_range_target(2)])
  then show ?thesis
    using 1 2 by (simp add: write_and_export_def split_beta split: option.splits)
qed

lemma sync_spreadsheet_success:
  assumes "fst (sync_spreadsheet w T ws c sid) = Inr ()"
  shows "written (snd (sync_spreadsheet w T ws c sid)) T ws c sid"
  using assms
  by (auto simp: sync_spreadsheet_def split_beta write_and_export_success
      split: option.splits sum.splits)

lemma sync_all_success:
  assumes "fst (sync_all w T ws c ids) = Inr ()" "sid \<in> set ids"
  shows "written (snd (sync_all w T ws c ids)) T ws c sid"
  using assms
proof (induction ids arbitrary: w)
  case Nil
  then show ?case by simp
next
  case (Cons a ids)
  let ?w1 = "snd (sync_spreadsheet w T ws c a)"
  have h: "fst (sync_spreadsheet w T ws c a) = Inr ()"
    using Cons.prems(1) by (auto simp: split_beta split: sum.splits)
  then have r: "sync_all w T ws c (a # ids) = sync_all ?w1 T ws c ids"
    by (simp add: split_beta)
  have t: "fst (sync_all ?w1 T ws c ids) = Inr ()" using Cons.prems(1) r by simp
  show ?case
  proof (cases "sid = a")
    case True
    have "written ?w1 T ws c sid" using h True by (simp add: sync_spreadsheet_success)
    then show ?thesis unfolding r by (rule written_sync_all)
  next
    case False
    then have "sid \<in> set ids" using Cons.prems(2) by simp
    from Cons.IH [OF t this] show ?thesis unfolding r .
  qed
qed

lemma run_success:
  assumes "fst (updateAndDownloadWorkSpreadsheets w T ws c) = Inr ()"
    and "sid \<in> set (WorkSpreadsheetIDs c)"
  shows "written (snd (updateAndDownloadWorkSpreadsheets w T ws c)) T ws c sid"
  using assms
  by (auto simp: updateAndDownloadWorkSpreadsheets_def split_beta sync_all_success
      split: option.splits)

lemma demo_run_once:
  "fst (updateAndDownloadWorkSpreadsheets demo_world feb_2024 demo_days demo_config) = Inr ()"
  by (simp add: updateAndDownloadWorkSpreadsheets_def new_service_def remote_eq next_ok_def
      sync_spreadsheet_def spreadsheets_get_def target_sheet_def sheets_copyTo_def
      update_sheet_properties_def values_update_def write_and_export_def export_sheet_def
      read_all_def write_file_def split_range_def fresh_id_def Let_def
      demo_world_def demo_config_def Format_200601_examples)

lemma demo_run_twice:
  "fst (updateAndDownloadWorkSpreadsheets
         (snd (updateAndDownloadWorkSpreadsheets demo_world feb_2024 demo_days demo_config))
         feb_2024 demo_days demo_config) = Inr ()"
  by (simp add: updateAndDownloadWorkSpreadsheets_def new_service_def remote_eq next_ok_def
      sync_spreadsheet_def spreadsheets_get_def target_sheet_def sheets_copyTo_def
      update_sheet_properties_def values_update_def write_and_export_def export_sheet_def
      read_all_def write_file_def split_range_def fresh_id_def Let_def
      demo_world_def demo_config_def Format_200601_examples)


section \<open>DocumentTemplater: lemmas on the target document\<close>

lemma concat_paginate: "concat (paginate n xs) = xs"
  by (induction n xs rule: paginate.induct) simp_all

lemma files_delete_effect:
  "DriveFiles (snd (files_delete w i)) =
     (if fst (files_delete w i) = Some () then filter (\<lambda>f. FileId f \<noteq> i) (DriveFiles w)
      else DriveFiles w)"
  by (simp add: files_delete_def remote_eq)

lemma delete_named_effect:
  assumes "fst (delete_named w name fs) = Inr ()"
  shows "set (DriveFiles (snd (delete_named w name fs))) \<subseteq> set (DriveFiles w)
       \<and> (\<forall>g \<in> set fs. Name g = name \<longrightarrow>
             FileId g \<notin> FileId ` set (DriveFiles (snd (delete_named w name fs))))"
  using assms
proof (induction fs arbitrary: w)
  case Nil
  then show ?case by simp
next
  case (Cons f fs)
  show ?case
  proof (cases "Name f = name")
    case False
    then show ?thesis using Cons by simp
  next
    case True
    let ?w1 = "snd (files_delete w (FileId f))"
    have ok: "fst (files_delete w (FileId f)) = Some ()"
      using Cons.prems True by (auto simp: split_beta split: option.splits)
    then have r: "delete_named w name (f # fs) = delete_named ?w1 name fs"
      using True by (simp add: split_beta)
    have d1: "DriveFiles ?w1 = filter (\<lambda>g. FileId g \<noteq> FileId f) (DriveFiles w)"
      using ok by (simp add: files_delete_effect)
    have "fst (delete_named ?w1 name fs) = Inr ()" using Cons.prems r by simp
    from Cons.IH [OF this]
    have sub: "set (DriveFiles (snd (delete_named ?w1 name fs))) \<subseteq> set (DriveFiles ?w1)"
      and gone: "\<forall>g \<in> set fs. Name g = name \<longrightarrow>
             FileId g \<notin> FileId ` set (DriveFiles (snd (delete_named ?w1 name fs)))"
      by blast+
    have "FileId f \<notin> FileId ` set (DriveFiles ?w1)" by (auto simp: d1)
    then have "FileId f \<notin> FileId ` set (DriveFiles (snd (delete_named ?w1 name fs)))"
      using sub by blast
    moreover have "set (DriveFiles ?w1) \<subseteq> set (DriveFiles w)" by (auto simp: d1)
    ultimately show ?thesis unfolding r using sub gone by auto
  qed
qed

lemma files_list_effect:
  assumes "files_list w folderID token = (Some (files, next), w1)"
  shows "DriveFiles w1 = DriveFiles w
       \<and> to_list w folderID token = files @ (if next = [] then [] else concat (Pending w1))"
proof (cases "token = []")
  case True
  let ?S = "filter (\<lambda>f. folderID \<in> set (Parents f)) (DriveFiles w)"
  have c: "concat (paginate (PageSize w) ?S) = ?S" by (rule concat_paginate)
  show ?thesis
  proof (cases "paginate (PageSize w) ?S")
    case Nil
    then show ?thesis using assms True c
      by (auto simp: files_list_def serve_def remote_eq to_list_def split: if_splits)
  next
    case (Cons p ps)
    then show ?thesis using assms True c
      by (auto simp: files_list_def serve_def remote_eq to_list_def split: if_splits)
  qed
next
  case False
  then show ?thesis using assms
    by (auto simp: files_list_def serve_def remote_eq to_list_def
        split: if_splits list.splits)
qed

lemma delete_existing_effect:
  "fst (delete_existing w folderID name token) = Inr () \<Longrightarrow>
     set (DriveFiles (snd (delete_existing w folderID name token))) \<subseteq> set (DriveFiles w)
     \<and> (\<forall>g \<in> set (to_list w folderID token). Name g = name \<longrightarrow>
           FileId g \<notin> FileId ` set (DriveFiles (snd (delete_existing w folderID name token))))"
proof (induction w folderID name token rule: delete_existing.induct)
  case (1 w folderID name token)
  obtain x w1 where l: "files_list w folderID token = (x, w1)"
    by (cases "files_list w folderID token")
  from "1.prems" l obtain files "next" where x: "x = Some (files, next)"
    by (subst (asm) delete_existing.simps) (auto split: option.splits)
  obtain r w2 where d: "delete_named w1 name files = (r, w2)"
    by (cases "delete_named w1 name files")
  from "1.prems" l x d have r: "r = Inr ()"
    by (subst (asm) delete_existing.simps) (auto split: sum.splits)
  note le = files_list_effect [OF l [unfolded x]]
  have de: "set (DriveFiles w2) \<subseteq> set (DriveFiles w1)"
    "\<forall>g \<in> set files. Name g = name \<longrightarrow> FileId g \<notin> FileId ` set (DriveFiles w2)"
    using delete_named_effect [of w1 name files] d r by simp_all
  have p: "Pending w2 = Pending w1"
    using delete_named_Pending [of w1 name files] d by simp
  show ?case
  proof (cases "next = []")
    case True
    then have e: "delete_existing w folderID name token = (Inr (), w2)"
      using l x d r by (subst delete_existing.simps) simp
    show ?thesis using le de True by (simp add: e)
  next
    case False
    then have e: "delete_existing w folderID name token = delete_existing w2 folderID name next"
      using l x d r by (subst delete_existing.simps) simp
    have "fst (delete_existing w2 folderID name next) = Inr ()"
      using "1.prems" e by simp
    from "1.IH" [OF l [symmetric] x refl d [symmetric] r False this]
    have sub: "set (DriveFiles (snd (delete_existing w2 folderID name next)))
        \<subseteq> set (DriveFiles w2)"
      and gone: "\<forall>g \<in> set (to_list w2 folderID next). Name g = name \<longrightarrow>
        FileId g \<notin> FileId ` set (DriveFiles (snd (delete_existing w2 folderID name next)))"
      by blast+
    have t2: "to_list w2 folderID next = concat (Pending w1)"
      using False p by (simp add: to_list_def)
    have g1: "\<forall>g \<in> set files. Name g = name \<longrightarrow>
        FileId g \<notin> FileId ` set (DriveFiles (snd (delete_existing w2 folderID name next)))"
      using de(2) sub by blast
    have t: "set (to_list w folderID token) = set files \<union> set (to_list w2 folderID next)"
      using le False t2 by simp
    have s: "set (DriveFiles (snd (delete_existing w2 folderID name next)))
        \<subseteq> set (DriveFiles w)"
      using sub de(1) le by simp
    show ?thesis
      unfolding e t using s g1 gone by blast
  qed
qed

lemma delete_existing_none_left:
  assumes "fst (delete_existing w folderID name []) = Inr ()"
  shows "named_in folderID name (DriveFiles (snd (delete_existing w folderID name []))) = []"
proof -
  note e = delete_existing_effect [OF assms]
  have "\<And>g. g \<in> set (DriveFiles (snd (delete_existing w folderID name []))) \<Longrightarrow>
      Name g = name \<Longrightarrow> folderID \<in> set (Parents g) \<Longrightarrow> False"
  proof -
    fix g assume g: "g \<in> set (DriveFiles (snd (delete_existing w folderID name [])))"
      "Name g = name" "folderID \<in> set (Parents g)"
    then have "g \<in> set (to_list w folderID [])" using e by (auto simp: to_list_def)
    then have "FileId g \<notin> FileId ` set (DriveFiles (snd (delete_existing w folderID name [])))"
      using e g(2) by blast
    then show False using g(1) by blast
  qed
  then show ?thesis by (auto simp: named_in_def filter_empty_conv)
qed

lemma files_get_effect:
  "files_get w i = (if next_ok w then find (\<lambda>f. FileId f = i) (DriveFiles w) else None,
                    w\<lparr>Calls := Calls w @ [FilesGet i], Faults := tl (Faults w)\<rparr>)"
  by (simp add: files_get_def remote_eq)

lemma demo_prepare:
  "fst (prepare_document demo_world feb_2024 demo_config)
     = Inr \<lparr>FileId = ''new'', Name = ''Report 202402'', Parents = [''folder'']\<rparr>"
  by (simp add: prepare_document_def files_get_def remote_eq next_ok_def delete_existing.simps
      files_list_def serve_def files_delete_def files_copy_def Let_def
      demo_world_def demo_config_def Format_200601_examples numeral_2_eq_2)

text \<open>
  A run of the templater that succeeds has sent exactly one batch to the copy:
  the placeholder batch of the target month.
\<close>

lemma drive_calls_DocUpdates [simp]:
  "DocUpdates (snd (files_get w i)) = DocUpdates w"
  "DocUpdates (snd (files_list w folderID token)) = DocUpdates w"
  "DocUpdates (snd (files_delete w i)) = DocUpdates w"
  "DocUpdates (snd (files_copy w i name parents)) = DocUpdates w"
  "DocUpdates (snd (files_export w i mime)) = DocUpdates w"
  "DocUpdates (snd (new_service w s)) = DocUpdates w"
  "DocUpdates (snd (read_all w body)) = DocUpdates w"
  "DocUpdates (snd (write_file w name data)) = DocUpdates w"
  by (simp_all add: files_get_def files_list_def files_delete_def files_copy_def
      files_export_def new_service_def read_all_def write_file_def serve_def remote_eq Let_def
      split: list.splits)

lemma delete_named_DocUpdates [simp]:
  "DocUpdates (snd (delete_named w name fs)) = DocUpdates w"
proof (induction fs arbitrary: w)
  case Nil
  then show ?case by simp
next
  case (Cons f fs)
  show ?case
  proof (cases "Name f = name")
    case False
    then show ?thesis using Cons.IH by simp
  next
    case True
    show ?thesis
    proof (cases "fst (files_delete w (FileId f))")
      case None
      then show ?thesis using True by (simp add: split_beta)
    next
      case (Some u)
      then show ?thesis
        using True Cons.IH [of "snd (files_delete w (FileId f))"] by (simp add: split_beta)
    qed
  qed
qed

lemma delete_existing_DocUpdates [simp]:
  "DocUpdates (snd (delete_existing w folderID name token)) = DocUpdates w"
proof (induction w folderID name token rule: delete_existing.induct)
  case (1 w folderID name token)
  obtain x w1 where l: "files_list w folderID token = (x, w1)"
    by (cases "files_list w folderID token")
  have w1: "DocUpdates w1 = DocUpdates w"
    using drive_calls_DocUpdates(2) [of w folderID token] l by simp
  show ?case
  proof (cases x)
    case None
    then show ?thesis using l w1 by (subst delete_existing.simps) simp
  next
    case (Some p)
    obtain files "next" where p: "p = (files, next)" by (cases p)
    obtain r w2 where d: "delete_named w1 name files = (r, w2)"
      by (cases "delete_named w1 name files")
    have w2: "DocUpdates w2 = DocUpdates w"
      using delete_named_DocUpdates [of w1 name files] d w1 by simp
    show ?thesis
    proof (cases r)
      case (Inl e)
      then show ?thesis using l Some p d w2 by (subst delete_existing.simps) simp
    next
      case (Inr u)
      show ?thesis
      proof (cases "next = []")
        case True
        then show ?thesis using l Some p d Inr w2 by (subst delete_existing.simps) simp
      next
        case False
        have "DocUpdates (snd (delete_existing w2 folderID name next)) = DocUpdates w2"
          using "1.IH" [OF l [symmetric] Some p [symmetric] d [symmetric] Inr False] .
        then show ?thesis using l Some p d Inr False w2
          by (subst delete_existing.simps) simp
      qed
    qed
  qed
qed

lemma prepare_document_DocUpdates [simp]:
  "DocUpdates (snd (prepare_document w T c)) = DocUpdates w"
  by (simp add: prepare_document_def split_beta Let_def
      split: option.splits list.splits sum.splits)

lemma fill_and_export_batch:
  assumes "fst (fill_and_export w T f) = Inr ()"
  shows "DocUpdates (snd (fill_and_export w T f))
     = DocUpdates w @ [(FileId f, placeholder_requests T)]"
proof -
  have "fst (documents_batchUpdate (snd (new_service w ''docs'')) (FileId f)
      (placeholder_requests T)) = Some ()"
    using assms by (auto simp: fill_and_export_def split_beta split: option.splits)
  then have "DocUpdates (snd (documents_batchUpdate (snd (new_service w ''docs'')) (FileId f)
      (placeholder_requests T))) = DocUpdates w @ [(FileId f, placeholder_requests T)]"
    by (auto simp: documents_batchUpdate_def new_service_def remote_eq split: if_splits)
  then show ?thesis
    using assms by (auto simp: fill_and_export_def split_beta split: option.splits)
qed

lemma templater_batch:
  assumes "fst (updateAndDownloadWorkDocuments w T c) = Inr ()"
  shows "\<exists>f :: drive_file. DocUpdates (snd (updateAndDownloadWorkDocuments w T c))
     = DocUpdates w @ [(FileId f, placeholder_requests T)]"
proof -
  let ?w1 = "snd (new_service w ''drive'')"
  obtain f where f: "fst (prepare_document ?w1 T c) = Inr f"
    using assms
    by (auto simp: updateAndDownloadWorkDocuments_def split_beta
        split: option.splits sum.splits)
  let ?w2 = "snd (prepare_document ?w1 T c)"
  have r: "updateAndDownloadWorkDocuments w T c = fill_and_export ?w2 T f"
    using assms f
    by (auto simp: updateAndDownloadWorkDocuments_def split_beta
        split: option.splits sum.splits)
  have "DocUpdates (snd (fill_and_export ?w2 T f))
      = DocUpdates ?w2 @ [(FileId f, placeholder_requests T)]"
    using assms unfolding r by (rule fill_and_export_batch)
  then have "DocUpdates (snd (updateAndDownloadWorkDocuments w T c))
      = DocUpdates w @ [(FileId f, placeholder_requests T)]"
    unfolding r by simp
  then show ?thesis by (rule exI)
qed

text \<open>
  A template whose name lacks the token \<open>yyyymm\<close> has the target name itself: it
  is in its own folder, is deleted with the other files of that name, and the copy
  fails.
\<close>

lemma template_without_token_is_deleted:
  "fst (prepare_document bare_world feb_2024 demo_config)
     = Inl (Fatal ''Failed to copy template'')
   \<and> DriveFiles (snd (prepare_document bare_world feb_2024 demo_config)) = []"
  by (simp add: prepare_document_def files_get_def remote_eq next_ok_def delete_existing.simps
      files_list_def serve_def files_delete_def files_copy_def Let_def
      bare_world_def demo_world_def demo_config_def Format_200601_examples numeral_2_eq_2)


section \<open>C1: the weekday-slot walk\<close>

lemma jan_days:
  "filter is_mwf (days_from \<lparr>Year = 2024, Month = 1, Day = 1, Secs = 0\<rparr>) =
     map (\<lambda>k. \<lparr>Year = 2024, Month = 1, Day = k, Secs = 0\<rparr>)
       [1, 3, 5, 8, 10, 12, 15, 17, 19, 22, 24, 26, 29, 31]"
  by (simp add: days_from_def daysIn_def upto.simps is_mwf_def Weekday_def absDay_def
      daysBefore_def isLeap_def weekday_of_def)

lemma feb20_days:
  "filter is_mwf (days_from \<lparr>Year = 2024, Month = 2, Day = 20, Secs = 0\<rparr>) =
     map (\<lambda>k. \<lparr>Year = 2024, Month = 2, Day = k, Secs = 0\<rparr>) [21, 23, 26, 28]"
  by (simp add: days_from_def daysIn_def upto.simps is_mwf_def Weekday_def absDay_def
      daysBefore_def isLeap_def weekday_of_def)

lemma feb20_last:
  "AddDate 0 1 (- 1) \<lparr>Year = 2024, Month = 2, Day = 20, Secs = 0\<rparr>
     = \<lparr>Year = 2024, Month = 3, Day = 19, Secs = 0\<rparr>"
proof -
  have "int 18 < daysIn 2024 3" by (simp add: daysIn_def)
  from next_day_steps [OF this, of 0] show ?thesis
    by (simp add: AddDate_def Date_def add_days_def)
qed

lemma example_texts:
  "Format_2006 \<lparr>Year = 2024, Month = m, Day = d, Secs = s\<rparr> = ''2024''"
  "Format_1 \<lparr>Year = y, Month = 1, Day = d, Secs = s\<rparr> = ''1''"
  "Format_1 \<lparr>Year = y, Month = 2, Day = d, Secs = s\<rparr> = ''2''"
  "Format_2 (AddDate 0 1 (- 1) \<lparr>Year = 2024, Month = 1, Day = 1, Secs = 0\<rparr>) = ''31''"
  by (simp_all add: Format_2006_def Format_1_def Format_2_def appendInt_def
      utoa.simps digit_def AddDate_def Date_def add_days_def prev_day_def daysIn_def)

lemma feb20_last_text:
  "Format_2 (AddDate 0 1 (- 1) \<lparr>Year = 2024, Month = 2, Day = 20, Secs = 0\<rparr>) = ''19''"
  by (simp add: feb20_last Format_2_def appendInt_def utoa.simps digit_def)

text \<open>The program's batch for a walk that starts on 20 February 2024, evaluated
  step by step: four slots are filled and eight are blanked.\<close>

lemma feb20_batch:
  "placeholder_requests \<lparr>Year = 2024, Month = 2, Day = 20, Secs = 0\<rparr> =
       [\<lparr>ContainsText = ''{{year}}'', ReplaceText = ''2024''\<rparr>,
        \<lparr>ContainsText = ''{{month}}'', ReplaceText = ''2''\<rparr>,
        \<lparr>ContainsText = ''{{day}}'', ReplaceText = ''19''\<rparr>,
        \<lparr>ContainsText = ''{{day1}}'', ReplaceText = ''2/21''\<rparr>,
        \<lparr>ContainsText = ''{{day1Hours}}'', ReplaceText = ''8''\<rparr>,
        \<lparr>ContainsText = ''{{day2}}'', ReplaceText = ''2/23''\<rparr>,
        \<lparr>ContainsText = ''{{day2Hours}}'', ReplaceText = ''8''\<rparr>,
        \<lparr>ContainsText = ''{{day3}}'', ReplaceText = ''2/26''\<rparr>,
        \<lparr>ContainsText = ''{{day3Hours}}'', ReplaceText = ''8''\<rparr>,
        \<lparr>ContainsText = ''{{day4}}'', ReplaceText = ''2/28''\<rparr>,
        \<lparr>ContainsText = ''{{day4Hours}}'', ReplaceText = ''8''\<rparr>,
        \<lparr>ContainsText = ''{{totalHours}}'', ReplaceText = ''32''\<rparr>,
        \<lparr>ContainsText = ''{{day5}}'', ReplaceText = []\<rparr>,
        \<lparr>ContainsText = ''{{day5Hours}}'', ReplaceText = []\<rparr>,
        \<lparr>ContainsText = ''{{day6}}'', ReplaceText = []\<rparr>,
        \<lparr>ContainsText = ''{{day6Hours}}'', ReplaceText = []\<rparr>,
        \<lparr>ContainsText = ''{{day7}}'', ReplaceText = []\<rparr>,
        \<lparr>ContainsText = ''{{day7Hours}}'', ReplaceText = []\<rparr>,
        \<lparr>ContainsText = ''{{day8}}'', ReplaceText = []\<rparr>,
        \<lparr>ContainsText = ''{{day8Hours}}'', ReplaceText = []\<rparr>,
        \<lparr>ContainsText = ''{{day9}}'', ReplaceText = []\<rparr>,
        \<lparr>ContainsText = ''{{day9Hours}}'', ReplaceText = []\<rparr>,
        \<lparr>ContainsText = ''{{day10}}'', ReplaceText = []\<rparr>,
        \<lparr>ContainsText = ''{{day10Hours}}'', ReplaceText = []\<rparr>,
        \<lparr>ContainsText = ''{{day11}}'', ReplaceText = []\<rparr>,
        \<lparr>ContainsText = ''{{day11Hours}}'', ReplaceText = []\<rparr>,
        \<lparr>ContainsText = ''{{day12}}'', ReplaceText = []\<rparr>,
        \<lparr>ContainsText = ''{{day12Hours}}'', ReplaceText = []\<rparr>]"
  by (simp add: placeholder_requests_def header_requests_def blank_stop blank_go
      feb20_last Format_2006_def Format_1_def Format_2_def walk_stop walk_hit walk_miss
      is_mwf_def valid_time_def next_day_def Weekday_def absDay_def daysBefore_def daysIn_def
      isLeap_def weekday_of_def upto.simps Format_1_2_def appendInt_def utoa.simps digit_def
      day_key_def hours_key_def Itoa_def makeReplaceRequest_def)

text \<open>
  Claim C1.  For every valid date \<open>T\<close> the walk starts from (a target month is
  one with day 1, and then the dates walked are those of the whole month), the
  batch built by the DocumentTemplater is: the requests for \<open>{{year}}\<close>,
  \<open>{{month}}\<close> and \<open>{{day}}\<close>, then slots \<open>1..k\<close> filled with the first \<open>k\<close>
  Monday/Wednesday/Friday dates in calendar order, each as month/day together
  with 8 hours (\<open>k\<close> is the number of such dates, cut at 12 even if there are
  more), then \<open>{{totalHours}}\<close> replaced by \<open>8 * k\<close>, then slots \<open>k+1..12\<close> with
  both placeholders replaced by the empty string.  The dates are in strictly
  increasing order, lie in the month of \<open>T\<close> and fall on a Monday, Wednesday or
  Friday, and each of the 24 slot placeholders is the search text of exactly one
  request.
\<close>

theorem C1_slot_walk:
  assumes "valid_time T"
  shows "placeholder_requests T =
           [\<lparr>ContainsText = ''{{year}}'', ReplaceText = Format_2006 T\<rparr>,
            \<lparr>ContainsText = ''{{month}}'', ReplaceText = Format_1 T\<rparr>,
            \<lparr>ContainsText = ''{{day}}'', ReplaceText = Format_2 (AddDate 0 1 (- 1) T)\<rparr>]
             @ filled_slots 1 (spec_slot_dates T)
             @ [\<lparr>ContainsText = ''{{totalHours}}'',
                 ReplaceText = Itoa (8 * int (length (spec_slot_dates T)))\<rparr>]
             @ blank_slots [int (length (spec_slot_dates T)) + 1..12]
         \<and> length (spec_slot_dates T) = min 12 (length (filter is_mwf (days_from T)))
         \<and> (Day T = 1 \<longrightarrow> days_from T = month_days T)
         \<and> sorted_wrt (\<lambda>a b. Day a < Day b) (spec_slot_dates T)
         \<and> (\<forall>d \<in> set (spec_slot_dates T).
               Year d = Year T \<and> Month d = Month T \<and> Day T \<le> Day d
                 \<and> Day d \<le> daysIn (Year T) (Month T) \<and> is_mwf d)
         \<and> (\<forall>key \<in> set slot_tokens.
               count_list (map ContainsText (placeholder_requests T)) key = 1)"
proof (intro conjI ballI impI)
  show "placeholder_requests T =
           [\<lparr>ContainsText = ''{{year}}'', ReplaceText = Format_2006 T\<rparr>,
            \<lparr>ContainsText = ''{{month}}'', ReplaceText = Format_1 T\<rparr>,
            \<lparr>ContainsText = ''{{day}}'', ReplaceText = Format_2 (AddDate 0 1 (- 1) T)\<rparr>]
             @ filled_slots 1 (spec_slot_dates T)
             @ [\<lparr>ContainsText = ''{{totalHours}}'',
                 ReplaceText = Itoa (8 * int (length (spec_slot_dates T)))\<rparr>]
             @ blank_slots [int (length (spec_slot_dates T)) + 1..12]"
    using placeholder_requests_char [OF assms]
    by (simp add: header_requests_def makeReplaceRequest_def)
  show "length (spec_slot_dates T) = min 12 (length (filter is_mwf (days_from T)))"
    by (simp add: spec_slot_dates_def min.commute)
  show "sorted_wrt (\<lambda>a b. Day a < Day b) (spec_slot_dates T)"
    by (rule slot_dates_sorted)
next
  assume "Day T = 1"
  then show "days_from T = month_days T" by (rule days_from_first)
next
  fix d assume "d \<in> set (spec_slot_dates T)"
  then show "Year d = Year T" "Month d = Month T" "Day T \<le> Day d"
    "Day d \<le> daysIn (Year T) (Month T)" "is_mwf d"
    using slot_dates_props [of d T] by simp_all
next
  fix key assume "key \<in> set slot_tokens"
  then show "count_list (map ContainsText (placeholder_requests T)) key = 1"
    unfolding placeholder_keys [OF assms] count_keys [OF slot_dates_length]
    by (rule count_token)
qed

theorem C1_slot_walk_witness:
  "valid_time \<lparr>Year = 2024, Month = 2, Day = 20, Secs = 0\<rparr>
   \<and> map Day (spec_slot_dates \<lparr>Year = 2024, Month = 2, Day = 20, Secs = 0\<rparr>)
        = [21, 23, 26, 28]
   \<and> placeholder_requests \<lparr>Year = 2024, Month = 2, Day = 20, Secs = 0\<rparr> =
       [\<lparr>ContainsText = ''{{year}}'', ReplaceText = ''2024''\<rparr>,
        \<lparr>ContainsText = ''{{month}}'', ReplaceText = ''2''\<rparr>,
        \<lparr>ContainsText = ''{{day}}'', ReplaceText = ''19''\<rparr>,
        \<lparr>ContainsText = ''{{day1}}'', ReplaceText = ''2/21''\<rparr>,
        \<lparr>ContainsText = ''{{day1Hours}}'', ReplaceText = ''8''\<rparr>,
        \<lparr>ContainsText = ''{{day2}}'', ReplaceText = ''2/23''\<rparr>,
        \<lparr>ContainsText = ''{{day2Hours}}'', ReplaceText = ''8''\<rparr>,
        \<lparr>ContainsText = ''{{day3}}'', ReplaceText = ''2/26''\<rparr>,
        \<lparr>ContainsText = ''{{day3Hours}}'', ReplaceText = ''8''\<rparr>,
        \<lparr>ContainsText = ''{{day4}}'', ReplaceText = ''2/28''\<rparr>,
        \<lparr>ContainsText = ''{{day4Hours}}'', ReplaceText = ''8''\<rparr>,
        \<lparr>ContainsText = ''{{totalHours}}'', ReplaceText = ''32''\<rparr>,
        \<lparr>ContainsText = ''{{day5}}'', ReplaceText = []\<rparr>,
        \<lparr>ContainsText = ''{{day5Hours}}'', ReplaceText = []\<rparr>,
        \<lparr>ContainsText = ''{{day6}}'', ReplaceText = []\<rparr>,
        \<lparr>ContainsText = ''{{day6Hours}}'', ReplaceText = []\<rparr>,
        \<lparr>ContainsText = ''{{day7}}'', ReplaceText = []\<rparr>,
        \<lparr>ContainsText = ''{{day7Hours}}'', ReplaceText = []\<rparr>,
        \<lparr>ContainsText = ''{{day8}}'', ReplaceText = []\<rparr>,
        \<lparr>ContainsText = ''{{day8Hours}}'', ReplaceText = []\<rparr>,
        \<lparr>ContainsText = ''{{day9}}'', ReplaceText = []\<rparr>,
        \<lparr>ContainsText = ''{{day9Hours}}'', ReplaceText = []\<rparr>,
        \<lparr>ContainsText = ''{{day10}}'', ReplaceText = []\<rparr>,
        \<lparr>ContainsText = ''{{day10Hours}}'', ReplaceText = []\<rparr>,
        \<lparr>ContainsText = ''{{day11}}'', ReplaceText = []\<rparr>,
        \<lparr>ContainsText = ''{{day11Hours}}'', ReplaceText = []\<rparr>,
        \<lparr>ContainsText = ''{{day12}}'', ReplaceText = []\<rparr>,
        \<lparr>ContainsText = ''{{day12Hours}}'', ReplaceText = []\<rparr>]
   \<and> valid_time \<lparr>Year = 2024, Month = 1, Day = 1, Secs = 0\<rparr>
   \<and> length (filter is_mwf (month_days \<lparr>Year = 2024, Month = 1, Day = 1, Secs = 0\<rparr>)) = 14
   \<and> map Day (spec_slot_dates \<lparr>Year = 2024, Month = 1, Day = 1, Secs = 0\<rparr>)
        = [1, 3, 5, 8, 10, 12, 15, 17, 19, 22, 24, 26]
   \<and> placeholder_requests \<lparr>Year = 2024, Month = 1, Day = 1, Secs = 0\<rparr> =
       [\<lparr>ContainsText = ''{{year}}'', ReplaceText = ''2024''\<rparr>,
        \<lparr>ContainsText = ''{{month}}'', ReplaceText = ''1''\<rparr>,
        \<lparr>ContainsText = ''{{day}}'', ReplaceText = ''31''\<rparr>,
        \<lparr>ContainsText = ''{{day1}}'', ReplaceText = ''1/1''\<rparr>,
        \<lparr>ContainsText = ''{{day1Hours}}'', ReplaceText = ''8''\<rparr>,
        \<lparr>ContainsText = ''{{day2}}'', ReplaceText = ''1/3''\<rparr>,
        \<lparr>ContainsText = ''{{day2Hours}}'', ReplaceText = ''8''\<rparr>,
        \<lparr>ContainsText = ''{{day3}}'', ReplaceText = ''1/5''\<rparr>,
        \<lparr>ContainsText = ''{{day3Hours}}'', ReplaceText = ''8''\<rparr>,
        \<lparr>ContainsText = ''{{day4}}'', ReplaceText = ''1/8''\<rparr>,
        \<lparr>ContainsText = ''{{day4Hours}}'', ReplaceText = ''8''\<rparr>,
        \<lparr>ContainsText = ''{{day5}}'', ReplaceText = ''1/10''\<rparr>,
        \<lparr>ContainsText = ''{{day5Hours}}'', ReplaceText = ''8''\<rparr>,
        \<lparr>ContainsText = ''{{day6}}'', ReplaceText = ''1/12''\<rparr>,
        \<lparr>ContainsText = ''{{day6Hours}}'', ReplaceText = ''8''\<rparr>,
        \<lparr>ContainsText = ''{{day7}}'', ReplaceText = ''1/15''\<rparr>,
        \<lparr>ContainsText = ''{{day7Hours}}'', ReplaceText = ''8''\<rparr>,
        \<lparr>ContainsText = ''{{day8}}'', ReplaceText = ''1/17''\<rparr>,
        \<lparr>ContainsText = ''{{day8Hours}}'', ReplaceText = ''8''\<rparr>,
        \<lparr>ContainsText = ''{{day9}}'', ReplaceText = ''1/19''\<rparr>,
        \<lparr>ContainsText = ''{{day9Hours}}'', ReplaceText = ''8''\<rparr>,
        \<lparr>ContainsText = ''{{day10}}'', ReplaceText = ''1/22''\<rparr>,
        \<lparr>ContainsText = ''{{day10Hours}}'', ReplaceText = ''8''\<rparr>,
        \<lparr>ContainsText = ''{{day11}}'', ReplaceText = ''1/24''\<rparr>,
        \<lparr>ContainsText = ''{{day11Hours}}'', ReplaceText = ''8''\<rparr>,
        \<lparr>ContainsText = ''{{day12}}'', ReplaceText = ''1/26''\<rparr>,
        \<lparr>ContainsText = ''{{day12Hours}}'', ReplaceText = ''8''\<rparr>,
        \<lparr>ContainsText = ''{{totalHours}}'', ReplaceText = ''96''\<rparr>]
   \<and> count_list (map ContainsText
          (placeholder_requests \<lparr>Year = 2024, Month = 1, Day = 1, Secs = 0\<rparr>))
        ''{{day12Hours}}'' = 1"
proof -
  let ?F = "\<lparr>Year = 2024, Month = 2, Day = 20, Secs = 0\<rparr>"
  let ?J = "\<lparr>Year = 2024, Month = 1, Day = 1, Secs = 0\<rparr>"
  have vF: "valid_time ?F" by (simp add: valid_time_def daysIn_def isLeap_def)
  have vJ: "valid_time ?J" by (simp add: valid_time_def daysIn_def)
  note cF = C1_slot_walk [OF vF]
  note cJ = C1_slot_walk [OF vJ]
  have sF: "spec_slot_dates ?F = map (\<lambda>k. \<lparr>Year = 2024, Month = 2, Day = k, Secs = 0\<rparr>)
       [21, 23, 26, 28]"
    by (simp add: spec_slot_dates_def feb20_days)
  have sJ: "spec_slot_dates ?J = map (\<lambda>k. \<lparr>Year = 2024, Month = 1, Day = k, Secs = 0\<rparr>)
       [1, 3, 5, 8, 10, 12, 15, 17, 19, 22, 24, 26]"
    by (simp add: spec_slot_dates_def jan_days)
  have mJ: "month_days ?J = days_from ?J"
    using cJ by simp
  have rF: "placeholder_requests ?F =
       [\<lparr>ContainsText = ''{{year}}'', ReplaceText = ''2024''\<rparr>,
        \<lparr>ContainsText = ''{{month}}'', ReplaceText = ''2''\<rparr>,
        \<lparr>ContainsText = ''{{day}}'', ReplaceText = ''19''\<rparr>,
        \<lparr>ContainsText = ''{{day1}}'', ReplaceText = ''2/21''\<rparr>,
        \<lparr>ContainsText = ''{{day1Hours}}'', ReplaceText = ''8''\<rparr>,
        \<lparr>ContainsText = ''{{day2}}'', ReplaceText = ''2/23''\<rparr>,
        \<lparr>ContainsText = ''{{day2Hours}}'', ReplaceText = ''8''\<rparr>,
        \<lparr>ContainsText = ''{{day3}}'', ReplaceText = ''2/26''\<rparr>,
        \<lparr>ContainsText = ''{{day3Hours}}'', ReplaceText = ''8''\<rparr>,
        \<lparr>ContainsText = ''{{day4}}'', ReplaceText = ''2/28''\<rparr>,
        \<lparr>ContainsText = ''{{day4Hours}}'', ReplaceText = ''8''\<rparr>,
        \<lparr>ContainsText = ''{{totalHours}}'', ReplaceText = ''32''\<rparr>,
        \<lparr>ContainsText = ''{{day5}}'', ReplaceText = []\<rparr>,
        \<lparr>ContainsText = ''{{day5Hours}}'', ReplaceText = []\<rparr>,
        \<lparr>ContainsText = ''{{day6}}'', ReplaceText = []\<rparr>,
        \<lparr>ContainsText = ''{{day6Hours}}'', ReplaceText = []\<rparr>,
        \<lparr>ContainsText = ''{{day7}}'', ReplaceText = []\<rparr>,
        \<lparr>ContainsText = ''{{day7Hours}}'', ReplaceText = []\<rparr>,
        \<lparr>ContainsText = ''{{day8}}'', ReplaceText = []\<rparr>,
        \<lparr>ContainsText = ''{{day8Hours}}'', ReplaceText = []\<rparr>,
        \<lparr>ContainsText = ''{{day9}}'', ReplaceText = []\<rparr>,
        \<lparr>ContainsText = ''{{day9Hours}}'', ReplaceText = []\<rparr>,
        \<lparr>ContainsText = ''{{day10}}'', ReplaceText = []\<rparr>,
        \<lparr>ContainsText = ''{{day10Hours}}'', ReplaceText = []\<rparr>,
        \<lparr>ContainsText = ''{{day11}}'', ReplaceText = []\<rparr>,
        \<lparr>ContainsText = ''{{day11Hours}}'', ReplaceText = []\<rparr>,
        \<lparr>ContainsText = ''{{day12}}'', ReplaceText = []\<rparr>,
        \<lparr>ContainsText = ''{{day12Hours}}'', ReplaceText = []\<rparr>]"
    unfolding cF [THEN conjunct1] sF
    by (simp add: example_texts feb20_last_text blank_slots_def upto.simps Format_1_2_def
        appendInt_def
        Itoa_def utoa.simps digit_def)
  have rJ: "placeholder_requests ?J =
       [\<lparr>ContainsText = ''{{year}}'', ReplaceText = ''2024''\<rparr>,
        \<lparr>ContainsText = ''{{month}}'', ReplaceText = ''1''\<rparr>,
        \<lparr>ContainsText = ''{{day}}'', ReplaceText = ''31''\<rparr>,
        \<lparr>ContainsText = ''{{day1}}'', ReplaceText = ''1/1''\<rparr>,
        \<lparr>ContainsText = ''{{day1Hours}}'', ReplaceText = ''8''\<rparr>,
        \<lparr>ContainsText = ''{{day2}}'', ReplaceText = ''1/3''\<rparr>,
        \<lparr>ContainsText = ''{{day2Hours}}'', ReplaceText = ''8''\<rparr>,
        \<lparr>ContainsText = ''{{day3}}'', ReplaceText = ''1/5''\<rparr>,
        \<lparr>ContainsText = ''{{day3Hours}}'', ReplaceText = ''8''\<rparr>,
        \<lparr>ContainsText = ''{{day4}}'', ReplaceText = ''1/8''\<rparr>,
        \<lparr>ContainsText = ''{{day4Hours}}'', ReplaceText = ''8''\<rparr>,
        \<lparr>ContainsText = ''{{day5}}'', ReplaceText = ''1/10''\<rparr>,
        \<lparr>ContainsText = ''{{day5Hours}}'', ReplaceText = ''8''\<rparr>,
        \<lparr>ContainsText = ''{{day6}}'', ReplaceText = ''1/12''\<rparr>,
        \<lparr>ContainsText = ''{{day6Hours}}'', ReplaceText = ''8''\<rparr>,
        \<lparr>ContainsText = ''{{day7}}'', ReplaceText = ''1/15''\<rparr>,
        \<lparr>ContainsText = ''{{day7Hours}}'', ReplaceText = ''8''\<rparr>,
        \<lparr>ContainsText = ''{{day8}}'', ReplaceText = ''1/17''\<rparr>,
        \<lparr>ContainsText = ''{{day8Hours}}'', ReplaceText = ''8''\<rparr>,
        \<lparr>ContainsText = ''{{day9}}'', ReplaceText = ''1/19''\<rparr>,
        \<lparr>ContainsText = ''{{day9Hours}}'', ReplaceText = ''8''\<rparr>,
        \<lparr>ContainsText = ''{{day10}}'', ReplaceText = ''1/22''\<rparr>,
        \<lparr>ContainsText = ''{{day10Hours}}'', ReplaceText = ''8''\<rparr>,
        \<lparr>ContainsText = ''{{day11}}'', ReplaceText = ''1/24''\<rparr>,
        \<lparr>ContainsText = ''{{day11Hours}}'', ReplaceText = ''8''\<rparr>,
        \<lparr>ContainsText = ''{{day12}}'', ReplaceText = ''1/26''\<rparr>,
        \<lparr>ContainsText = ''{{day12Hours}}'', ReplaceText = ''8''\<rparr>,
        \<lparr>ContainsText = ''{{totalHours}}'', ReplaceText = ''96''\<rparr>]"
    unfolding cJ [THEN conjunct1] sJ
    by (simp add: example_texts blank_slots_def Format_1_2_def appendInt_def
        Itoa_def utoa.simps digit_def)
  have k: "''{{day12Hours}}'' \<in> set slot_tokens" by (simp add: slot_tokens_def)
  have c: "count_list (map ContainsText (placeholder_requests ?J)) ''{{day12Hours}}'' = 1"
    using cJ k by blast
  show ?thesis
    unfolding rF rJ mJ using vF vJ c [unfolded rJ] by (simp add: sF sJ jan_days)
qed

section \<open>C5: February 2024\<close>

text \<open>
  Claim C5.  For the target month February 2024 the batch replaces the
  placeholders of slots 1 to 12 by 2/2, 2/5, 2/7, 2/9, 2/12, 2/14, 2/16, 2/19,
  2/21, 2/23, 2/26 and 2/28, each with 8 hours, \<open>{{day12}}\<close> by 2/28 and
  \<open>{{totalHours}}\<close> by 96; no slot is replaced by the empty string.
\<close>

theorem C5_february_2024:
  "placeholder_requests (Date 2024 2 1 0) =
    [\<lparr>ContainsText = ''{{year}}'', ReplaceText = ''2024''\<rparr>,
     \<lparr>ContainsText = ''{{month}}'', ReplaceText = ''2''\<rparr>,
     \<lparr>ContainsText = ''{{day}}'', ReplaceText = ''29''\<rparr>,
     \<lparr>ContainsText = ''{{day1}}'', ReplaceText = ''2/2''\<rparr>,
     \<lparr>ContainsText = ''{{day1Hours}}'', ReplaceText = ''8''\<rparr>,
     \<lparr>ContainsText = ''{{day2}}'', ReplaceText = ''2/5''\<rparr>,
     \<lparr>ContainsText = ''{{day2Hours}}'', ReplaceText = ''8''\<rparr>,
     \<lparr>ContainsText = ''{{day3}}'', ReplaceText = ''2/7''\<rparr>,
     \<lparr>ContainsText = ''{{day3Hours}}'', ReplaceText = ''8''\<rparr>,
     \<lparr>ContainsText = ''{{day4}}'', ReplaceText = ''2/9''\<rparr>,
     \<lparr>ContainsText = ''{{day4Hours}}'', ReplaceText = ''8''\<rparr>,
     \<lparr>ContainsText = ''{{day5}}'', ReplaceText = ''2/12''\<rparr>,
     \<lparr>ContainsText = ''{{day5Hours}}'', ReplaceText = ''8''\<rparr>,
     \<lparr>ContainsText = ''{{day6}}'', ReplaceText = ''2/14''\<rparr>,
     \<lparr>ContainsText = ''{{day6Hours}}'', ReplaceText = ''8''\<rparr>,
     \<lparr>ContainsText = ''{{day7}}'', ReplaceText = ''2/16''\<rparr>,
     \<lparr>ContainsText = ''{{day7Hours}}'', ReplaceText = ''8''\<rparr>,
     \<lparr>ContainsText = ''{{day8}}'', ReplaceText = ''2/19''\<rparr>,
     \<lparr>ContainsText = ''{{day8Hours}}'', ReplaceText = ''8''\<rparr>,
     \<lparr>ContainsText = ''{{day9}}'', ReplaceText = ''2/21''\<rparr>,
     \<lparr>ContainsText = ''{{day9Hours}}'', ReplaceText = ''8''\<rparr>,
     \<lparr>ContainsText = ''{{day10}}'', ReplaceText = ''2/23''\<rparr>,
     \<lparr>ContainsText = ''{{day10Hours}}'', ReplaceText = ''8''\<rparr>,
     \<lparr>ContainsText = ''{{day11}}'', ReplaceText = ''2/26''\<rparr>,
     \<lparr>ContainsText = ''{{day11Hours}}'', ReplaceText = ''8''\<rparr>,
     \<lparr>ContainsText = ''{{day12}}'', ReplaceText = ''2/28''\<rparr>,
     \<lparr>ContainsText = ''{{day12Hours}}'', ReplaceText = ''8''\<rparr>,
     \<lparr>ContainsText = ''{{totalHours}}'', ReplaceText = ''96''\<rparr>]"
  by (simp add: placeholder_requests_def header_requests_def Date_Feb_2024 blank_stop
      AddDate_def Date_def add_days_def prev_day_def Format_2006_def Format_1_def
      Format_2_def walk_stop walk_hit walk_miss is_mwf_def valid_time_def next_day_def
      Weekday_def absDay_def daysBefore_def daysIn_def isLeap_def weekday_of_def upto.simps
      Format_1_2_def appendInt_def utoa.simps digit_def day_key_def hours_key_def Itoa_def
      makeReplaceRequest_def)


section \<open>C8: the target month and the header requests\<close>

text \<open>
  Claim C8.  Whatever valid time \<open>main\<close> starts from (the current time, or the
  parsed argument; years 0 to 9999), the target month is the first day of that
  month at midnight.  For it, target month plus one month minus one day is the
  last calendar day of the month, so \<open>{{day}}\<close> is replaced by the two digits
  of the number of days of the month; \<open>{{year}}\<close> is replaced by the four
  decimal digits of the year and \<open>{{month}}\<close> by the month number without a
  leading zero.
\<close>

theorem C8_target_month_header:
  assumes "valid_time t" and "0 \<le> Year t" and "Year t \<le> 9999"
  shows "target_month t = \<lparr>Year = Year t, Month = Month t, Day = 1, Secs = 0\<rparr>
       \<and> AddDate 0 1 (- 1) (target_month t)
           = \<lparr>Year = Year t, Month = Month t, Day = daysIn (Year t) (Month t), Secs = 0\<rparr>
       \<and> take 3 (placeholder_requests (target_month t))
           = [\<lparr>ContainsText = ''{{year}}'',
               ReplaceText = [digit (nat (Year t) div 1000), digit (nat (Year t) div 100),
                              digit (nat (Year t) div 10), digit (nat (Year t))]\<rparr>,
              \<lparr>ContainsText = ''{{month}}'',
               ReplaceText = (if Month t < 10 then [digit (nat (Month t))]
                              else [CHR ''1'', digit (nat (Month t))])\<rparr>,
              \<lparr>ContainsText = ''{{day}}'',
               ReplaceText = [digit (nat (daysIn (Year t) (Month t)) div 10),
                              digit (nat (daysIn (Year t) (Month t)))]\<rparr>]"
proof -
  let ?T = "\<lparr>Year = Year t, Month = Month t, Day = 1, Secs = 0\<rparr>"
  have T: "target_month t = ?T" using assms(1) by (rule target_month_eq)
  have v: "valid_time ?T"
    using assms(1) daysIn_bounds [of "Year t" "Month t"] by (simp add: valid_time_def)
  have l: "AddDate 0 1 (- 1) ?T = ?T\<lparr>Day := daysIn (Year t) (Month t)\<rparr>"
    using last_day_of_month [OF v] by simp
  have y: "Format_2006 ?T = [digit (nat (Year t) div 1000), digit (nat (Year t) div 100),
                 digit (nat (Year t) div 10), digit (nat (Year t))]"
    using Format_2006_digits [of ?T] assms(2,3) by simp
  have m: "Format_1 ?T = (if Month t < 10 then [digit (nat (Month t))]
                 else [CHR ''1'', digit (nat (Month t))])"
    using Format_1_month [of ?T] assms(1) by (simp add: valid_time_def)
  have d: "Format_2 \<lparr>Year = Year t, Month = Month t, Day = daysIn (Year t) (Month t),
      Secs = 0\<rparr> = [digit (nat (daysIn (Year t) (Month t)) div 10),
                    digit (nat (daysIn (Year t) (Month t)))]"
    using daysIn_bounds [of "Year t" "Month t"]
    by (simp add: Format_2_Itoa Itoa_two_digits)
  have h: "take 3 (placeholder_requests ?T) = header_requests ?T"
    using v by (rule placeholder_requests_header)
  show ?thesis
    unfolding T h using l by (simp add: header_requests_def makeReplaceRequest_def y m d)
qed

theorem C8_target_month_header_witness:
  "valid_time \<lparr>Year = 2024, Month = 2, Day = 17, Secs = 45296\<rparr>
   \<and> target_month \<lparr>Year = 2024, Month = 2, Day = 17, Secs = 45296\<rparr>
        = \<lparr>Year = 2024, Month = 2, Day = 1, Secs = 0\<rparr>
   \<and> AddDate 0 1 (- 1) (target_month \<lparr>Year = 2024, Month = 2, Day = 17, Secs = 45296\<rparr>)
        = \<lparr>Year = 2024, Month = 2, Day = 29, Secs = 0\<rparr>
   \<and> take 3 (placeholder_requests (target_month \<lparr>Year = 2024, Month = 2, Day = 17, Secs = 45296\<rparr>))
        = [\<lparr>ContainsText = ''{{year}}'', ReplaceText = ''2024''\<rparr>,
           \<lparr>ContainsText = ''{{month}}'', ReplaceText = ''2''\<rparr>,
           \<lparr>ContainsText = ''{{day}}'', ReplaceText = ''29''\<rparr>]"
proof -
  have v: "valid_time \<lparr>Year = 2024, Month = 2, Day = 17, Secs = 45296\<rparr>"
    by (simp add: valid_time_def daysIn_def isLeap_def)
  have c: "target_month \<lparr>Year = 2024, Month = 2, Day = 17, Secs = 45296\<rparr>
        = \<lparr>Year = 2024, Month = 2, Day = 1, Secs = 0\<rparr>"
    using C8_target_month_header [OF v] by simp
  show ?thesis
    using v C8_target_month_header [OF v] unfolding c
    by (simp add: daysIn_def isLeap_def digit_def Itoa_def utoa.simps)
qed


section \<open>C3: the work days\<close>

text \<open>
  Claim C3.  When \<open>getWorkDays\<close> returns, its result is the list of the dates of
  the returned events whose label equals the configured marker and whose date
  has the year and month of the target month, in event order with repeats kept:
  every such date is in the result, and every date in the result comes from such
  an event, so no event outside the month or with another label contributes.
\<close>

theorem C3_work_days:
  assumes "fst (getWorkDays P w T c) = Inr days"
  shows "days = spec_work_days P T c (Calendar w (CalendarID c) (AddDate 0 (- 1) (- 1) T))
       \<and> (\<forall>item \<in> set (Calendar w (CalendarID c) (AddDate 0 (- 1) (- 1) T)). \<forall>d.
             event_date P item = Inr d \<and> Summary item = WorkDayTitle c
               \<and> Year d = Year T \<and> Month d = Month T \<longrightarrow> d \<in> set days)
       \<and> (\<forall>d \<in> set days.
             \<exists>item \<in> set (Calendar w (CalendarID c) (AddDate 0 (- 1) (- 1) T)).
               event_date P item = Inr d \<and> Summary item = WorkDayTitle c
                 \<and> Year d = Year T \<and> Month d = Month T)"
proof -
  have d: "days = spec_work_days P T c (Calendar w (CalendarID c) (AddDate 0 (- 1) (- 1) T))"
    using collect_char [OF getWorkDays_items [OF assms]] by simp
  show ?thesis
    unfolding d [symmetric] by (subst (2 3) d) (auto simp: d spec_work_days_set)
qed

theorem C3_work_days_witness:
  "fst (getWorkDays go_parsers demo_world feb_2024 demo_config) =
     Inr [\<lparr>Year = 2024, Month = 2, Day = 3, Secs = 32400\<rparr>,
          \<lparr>Year = 2024, Month = 2, Day = 10, Secs = 0\<rparr>,
          \<lparr>Year = 2024, Month = 2, Day = 3, Secs = 0\<rparr>]
   \<and> [\<lparr>Year = 2024, Month = 2, Day = 3, Secs = 32400\<rparr>,
      \<lparr>Year = 2024, Month = 2, Day = 10, Secs = 0\<rparr>,
      \<lparr>Year = 2024, Month = 2, Day = 3, Secs = 0\<rparr>]
       = spec_work_days go_parsers feb_2024 demo_config demo_events
   \<and> \<lparr>Year = 2024, Month = 2, Day = 11, Secs = 0\<rparr>
       \<notin> set (spec_work_days go_parsers feb_2024 demo_config demo_events)
   \<and> \<lparr>Year = 2024, Month = 1, Day = 31, Secs = 0\<rparr>
       \<notin> set (spec_work_days go_parsers feb_2024 demo_config demo_events)"
proof -
  have c: "Calendar demo_world (CalendarID demo_config) (AddDate 0 (- 1) (- 1) feb_2024)
             = demo_events"
    by (simp add: demo_world_def demo_config_def)
  note t = C3_work_days [OF demo_getWorkDays, unfolded c]
  have "spec_work_days go_parsers feb_2024 demo_config demo_events =
     [\<lparr>Year = 2024, Month = 2, Day = 3, Secs = 32400\<rparr>,
      \<lparr>Year = 2024, Month = 2, Day = 10, Secs = 0\<rparr>,
      \<lparr>Year = 2024, Month = 2, Day = 3, Secs = 0\<rparr>]"
    using t by simp
  then show ?thesis using demo_getWorkDays by simp
qed


section \<open>C2: the attendance column\<close>

text \<open>
  Claim C2.  The column built for the range D7:D37 has exactly 31 rows of one
  cell; for each day index \<open>i\<close> from 1 to 31 the cell is the configured work start
  time if some work day has day \<open>i\<close> and the year and month of the target month,
  and the empty string otherwise.  Two work-day lists with the same elements,
  whatever their repeats and order, give the same column.
\<close>

theorem C2_attendance_column:
  "length (work_times T ws c 1 []) = 31
   \<and> (\<forall>i \<in> {1..31}. work_times T ws c 1 [] ! nat (i - 1) =
         [if \<exists>d \<in> set ws. Year d = Year T \<and> Month d = Month T \<and> Day d = i
          then WorkStartTime c else []])
   \<and> (set ws' = set ws \<longrightarrow> work_times T ws' c 1 [] = work_times T ws c 1 [])"
proof (intro conjI ballI impI)
  show "length (work_times T ws c 1 []) = 31"
    by (simp add: work_times_char [OF refl])
next
  fix i :: int assume "i \<in> {1..31}"
  then have "[1..31] ! nat (i - 1) = i" "nat (i - 1) < length [1..31]"
    by (simp_all add: nth_upto) arith
  then show "work_times T ws c 1 [] ! nat (i - 1) =
         [if \<exists>d \<in> set ws. Year d = Year T \<and> Month d = Month T \<and> Day d = i
          then WorkStartTime c else []]"
    by (simp add: work_times_char [OF refl] day_value_eq del: upto.simps)
next
  assume "set ws' = set ws"
  then show "work_times T ws' c 1 [] = work_times T ws c 1 []"
    by (simp add: work_times_char [OF refl] day_value_eq)
qed

theorem C2_attendance_column_witness:
  "work_times feb_2024
      [\<lparr>Year = 2024, Month = 2, Day = 3, Secs = 0\<rparr>, \<lparr>Year = 2024, Month = 2, Day = 10, Secs = 0\<rparr>]
      demo_config 1 [] =
     [[[]], [[]], [''09:00''], [[]], [[]], [[]], [[]], [[]], [[]], [''09:00''],
      [[]], [[]], [[]], [[]], [[]], [[]], [[]], [[]], [[]], [[]],
      [[]], [[]], [[]], [[]], [[]], [[]], [[]], [[]], [[]], [[]], [[]]]
   \<and> work_times feb_2024
      [\<lparr>Year = 2024, Month = 2, Day = 3, Secs = 0\<rparr>, \<lparr>Year = 2024, Month = 2, Day = 10, Secs = 0\<rparr>,
       \<lparr>Year = 2024, Month = 2, Day = 3, Secs = 0\<rparr>]
      demo_config 1 [] =
     work_times feb_2024
      [\<lparr>Year = 2024, Month = 2, Day = 3, Secs = 0\<rparr>, \<lparr>Year = 2024, Month = 2, Day = 10, Secs = 0\<rparr>]
      demo_config 1 []"
proof -
  let ?ws = "[\<lparr>Year = 2024, Month = 2, Day = 3, Secs = 0\<rparr>, \<lparr>Year = 2024, Month = 2, Day = 10, Secs = 0\<rparr>]"
  let ?ws' = "[\<lparr>Year = 2024, Month = 2, Day = 3, Secs = 0\<rparr>, \<lparr>Year = 2024, Month = 2, Day = 10, Secs = 0\<rparr>,
       \<lparr>Year = 2024, Month = 2, Day = 3, Secs = 0\<rparr>]"
  note t = C2_attendance_column [of feb_2024 ?ws demo_config ?ws']
  have len: "length (work_times feb_2024 ?ws demo_config 1 []) = 31"
    using t by simp
  have cells: "\<forall>i \<in> {1..31}. work_times feb_2024 ?ws demo_config 1 [] ! nat (i - 1) =
      [if i = 3 \<or> i = 10 then ''09:00'' else []]"
    using t by (auto simp: feb_2024_def demo_config_def)
  have dup: "work_times feb_2024 ?ws' demo_config 1 [] = work_times feb_2024 ?ws demo_config 1 []"
    using t by auto
  have "work_times feb_2024 ?ws demo_config 1 [] =
      map (\<lambda>i. [if i = 3 \<or> i = 10 then ''09:00'' else []]) [1..31]"
  proof (rule nth_equalityI)
    show "length (work_times feb_2024 ?ws demo_config 1 []) =
        length (map (\<lambda>i. [if i = 3 \<or> i = 10 then ''09:00'' else []]) [1..31::int])"
      using len by simp
  next
    fix k assume "k < length (work_times feb_2024 ?ws demo_config 1 [])"
    then have k: "k < 31" using len by simp
    then have "int k + 1 \<in> {1..31}" by simp
    with cells have "work_times feb_2024 ?ws demo_config 1 [] ! nat (int k + 1 - 1) =
      [if int k + 1 = 3 \<or> int k + 1 = 10 then ''09:00'' else []]" by blast
    then show "work_times feb_2024 ?ws demo_config 1 [] ! k =
        map (\<lambda>i. [if i = 3 \<or> i = 10 then ''09:00'' else []]) [1..31::int] ! k"
      using k by (simp add: nth_upto del: upto.simps)
  qed
  then show ?thesis using dup by (simp add: upto.simps)
qed


section \<open>C4: no page to clone from\<close>

text \<open>
  Claim C4.  If the spreadsheet has neither a page titled with the target month
  nor one titled with the month before it, whatever other pages it has, the
  synchronisation of that spreadsheet ends in a fatal error: the only call made
  is the one fetching the spreadsheet, no page is cloned, nothing is written or
  exported, and the loop does not go on to the remaining spreadsheets.  When the
  fetch itself went through, the error is "Failed to determine sheet to copy".
\<close>

theorem C4_no_page_to_clone:
  assumes "Spreadsheets w sid = Some ss"
    and "Format_200601 T \<notin> set (map Title (Sheets ss))"
    and "Format_200601 (AddDate 0 (- 1) 0 T) \<notin> set (map Title (Sheets ss))"
  shows "(\<exists>msg. fst (sync_spreadsheet w T workDays c sid) = Inl (Fatal msg))
       \<and> (next_ok w \<longrightarrow>
            fst (sync_spreadsheet w T workDays c sid)
              = Inl (Fatal ''Failed to determine sheet to copy''))
       \<and> Calls (snd (sync_spreadsheet w T workDays c sid)) = Calls w @ [SpreadsheetsGet sid]
       \<and> Spreadsheets (snd (sync_spreadsheet w T workDays c sid)) = Spreadsheets w
       \<and> LocalFiles (snd (sync_spreadsheet w T workDays c sid)) = LocalFiles w
       \<and> sync_all w T workDays c (sid # ids) = sync_spreadsheet w T workDays c sid"
proof -
  let ?w1 = "w\<lparr>Calls := Calls w @ [SpreadsheetsGet sid], Faults := tl (Faults w)\<rparr>"
  have t: "target_sheet ?w1 T sid ss = (Inl (Fatal ''Failed to determine sheet to copy''), ?w1)"
    using assms(2,3) by (simp add: target_sheet_def find_target_none find_copy_from_none)
  show ?thesis
    using assms(1) t by (simp add: sync_spreadsheet_def spreadsheets_get_def remote_eq)
qed

theorem C4_no_page_to_clone_witness:
  "Spreadsheets demo_world ''book'' =
     Some \<lparr>PropertiesTitle = ''Attendance'',
           Sheets = [\<lparr>SheetId = 7, Title = ''202401'', Cells = Map.empty\<rparr>]\<rparr>
   \<and> Format_200601 apr_2024 = ''202404''
   \<and> Format_200601 (AddDate 0 (- 1) 0 apr_2024) = ''202403''
   \<and> next_ok demo_world
   \<and> fst (sync_spreadsheet demo_world apr_2024 [] demo_config ''book'')
       = Inl (Fatal ''Failed to determine sheet to copy'')
   \<and> Calls (snd (sync_spreadsheet demo_world apr_2024 [] demo_config ''book''))
       = [SpreadsheetsGet ''book'']
   \<and> sync_all demo_world apr_2024 [] demo_config [''book'', ''other'']
       = sync_spreadsheet demo_world apr_2024 [] demo_config ''book''"
proof -
  let ?ss = "\<lparr>PropertiesTitle = ''Attendance'',
           Sheets = [\<lparr>SheetId = 7, Title = ''202401'', Cells = Map.empty\<rparr>]\<rparr>"
  have a: "Spreadsheets demo_world ''book'' = Some ?ss" by (simp add: demo_world_def)
  have b: "Format_200601 apr_2024 \<notin> set (map Title (Sheets ?ss))"
    by (simp add: Format_200601_examples)
  have c: "Format_200601 (AddDate 0 (- 1) 0 apr_2024) \<notin> set (map Title (Sheets ?ss))"
    by (simp add: Format_200601_examples)
  have n: "next_ok demo_world" "Calls demo_world = []"
    by (simp_all add: next_ok_def demo_world_def)
  show ?thesis
    using C4_no_page_to_clone [OF a b c, of "[]" demo_config "[''other'']"] a n
    by (simp add: Format_200601_examples)
qed


section \<open>C10: a target page with identifier 0\<close>

text \<open>
  Claim C10.  If the page titled with the target month has the identifier 0
  (page titles within a spreadsheet being distinct), the search leaves
  \<open>targetSheetID\<close> at 0 and the page counts as absent: without a page of the
  previous month the run ends with "Failed to determine sheet to copy", with one
  the second call is the copy of that page; in no case is the existing page
  used: the run ends in a fatal error before any value is written.
\<close>

theorem C10_zero_identifier:
  assumes "Spreadsheets w sid = Some ss"
    and "distinct (map Title (Sheets ss))"
    and "s \<in> set (Sheets ss)" and "Title s = Format_200601 T" and "SheetId s = 0"
  shows "find_target (Format_200601 T) (Sheets ss) 0 = 0
       \<and> (\<exists>msg. fst (sync_spreadsheet w T workDays c sid) = Inl (Fatal msg))
       \<and> (next_ok w \<and> find_copy_from (Format_200601 (AddDate 0 (- 1) 0 T)) (Sheets ss) = None
            \<longrightarrow> fst (sync_spreadsheet w T workDays c sid)
                  = Inl (Fatal ''Failed to determine sheet to copy''))
       \<and> (\<forall>p. next_ok w
              \<and> find_copy_from (Format_200601 (AddDate 0 (- 1) 0 T)) (Sheets ss) = Some p
            \<longrightarrow> take 2 (drop (length (Calls w))
                          (Calls (snd (sync_spreadsheet w T workDays c sid))))
                  = [SpreadsheetsGet sid, SheetsCopyTo sid (SheetId p) sid])
       \<and> (\<forall>call \<in> set (drop (length (Calls w))
                          (Calls (snd (sync_spreadsheet w T workDays c sid)))).
             \<forall>r v. call \<noteq> ValuesUpdate sid r v)"
proof -
  let ?w1 = "w\<lparr>Calls := Calls w @ [SpreadsheetsGet sid], Faults := tl (Faults w)\<rparr>"
  let ?prev = "Format_200601 (AddDate 0 (- 1) 0 T)"
  have all0: "\<forall>x \<in> set (Sheets ss). Title x = Format_200601 T \<longrightarrow> SheetId x = 0"
    using distinct_titles [OF assms(2,3)] assms(4,5) by auto
  have z: "find_target (Format_200601 T) (Sheets ss) 0 = 0"
    using all0 by (rule find_target_all_zero)
  have t: "Format_200601 T \<in> set (map Title (Sheets ss))"
    using assms(3,4) by force
  have ss1: "Spreadsheets ?w1 sid = Some ss" using assms(1) by simp
  show ?thesis
  proof (cases "next_ok w")
    case False
    then show ?thesis using z by (simp add: sync_get_failed)
  next
    case True
    show ?thesis
    proof (cases "find_copy_from ?prev (Sheets ss)")
      case None
      then have "target_sheet ?w1 T sid ss
          = (Inl (Fatal ''Failed to determine sheet to copy''), ?w1)"
        using z by (simp add: target_sheet_def)
      from sync_target_failed [OF True assms(1) this]
      show ?thesis using z None by simp
    next
      case (Some p)
      from target_sheet_zero_copy [OF ss1 z t Some]
      obtain msg w' where r: "target_sheet ?w1 T sid ss = (Inl (Fatal msg), w')"
        and c: "Calls w' = Calls ?w1 @ [SheetsCopyTo sid (SheetId p) sid]
           \<or> Calls w' = Calls ?w1 @ [SheetsCopyTo sid (SheetId p) sid,
               UpdateSheetProperties sid (fresh_id (NewSheetId ?w1 ss) (map SheetId (Sheets ss)))
                (Format_200601 T) 0]"
        by blast
      have s: "sync_spreadsheet w T workDays c sid = (Inl (Fatal msg), w')"
        by (rule sync_target_failed [OF True assms(1) r])
      show ?thesis using z Some c by (auto simp: s)
    qed
  qed
qed

theorem C10_zero_identifier_witness:
  "Spreadsheets zero_world ''book'' =
     Some \<lparr>PropertiesTitle = ''Attendance'',
           Sheets = [\<lparr>SheetId = 0, Title = ''202402'', Cells = Map.empty\<rparr>,
                     \<lparr>SheetId = 7, Title = ''202401'', Cells = Map.empty\<rparr>]\<rparr>
   \<and> Format_200601 feb_2024 = ''202402''
   \<and> next_ok zero_world
   \<and> find_target ''202402''
        [\<lparr>SheetId = 0, Title = ''202402'', Cells = Map.empty\<rparr>,
         \<lparr>SheetId = 7, Title = ''202401'', Cells = Map.empty\<rparr>] 0 = 0
   \<and> (\<exists>msg. fst (sync_spreadsheet zero_world feb_2024 [] demo_config ''book'')
          = Inl (Fatal msg))
   \<and> take 2 (Calls (snd (sync_spreadsheet zero_world feb_2024 [] demo_config ''book'')))
       = [SpreadsheetsGet ''book'', SheetsCopyTo ''book'' 7 ''book'']"
proof -
  let ?s0 = "\<lparr>SheetId = 0, Title = ''202402'', Cells = Map.empty\<rparr>"
  let ?s1 = "\<lparr>SheetId = 7, Title = ''202401'', Cells = Map.empty\<rparr>"
  let ?ss = "\<lparr>PropertiesTitle = ''Attendance'', Sheets = [?s0, ?s1]\<rparr>"
  have a: "Spreadsheets zero_world ''book'' = Some ?ss"
    by (simp add: zero_world_def demo_world_def)
  have d: "distinct (map Title (Sheets ?ss))" by simp
  have m: "?s0 \<in> set (Sheets ?ss)" by simp
  have t: "Title ?s0 = Format_200601 feb_2024" by (simp add: Format_200601_examples)
  have i: "SheetId ?s0 = 0" by simp
  have n: "next_ok zero_world" "Calls zero_world = []"
    by (simp_all add: next_ok_def zero_world_def demo_world_def)
  have p: "find_copy_from (Format_200601 (AddDate 0 (- 1) 0 feb_2024)) (Sheets ?ss) = Some ?s1"
    by (simp add: Format_200601_examples)
  note c10 = C10_zero_identifier [OF a d m t i, of "[]" demo_config]
  have c1: "find_target ''202402'' [?s0, ?s1] 0 = 0"
    using c10 by (simp add: Format_200601_examples)
  have c2: "\<exists>msg. fst (sync_spreadsheet zero_world feb_2024 [] demo_config ''book'')
          = Inl (Fatal msg)"
    using c10 by blast
  have c3: "take 2 (Calls (snd (sync_spreadsheet zero_world feb_2024 [] demo_config ''book'')))
       = [SpreadsheetsGet ''book'', SheetsCopyTo ''book'' 7 ''book'']"
    using c10 n p by simp
  show ?thesis using a n c1 c2 c3 by (simp add: Format_200601_examples)
qed


section \<open>C6: a second run leaves the written cells as they are\<close>

text \<open>
  Claim C6.  After a run of the synchroniser that succeeded, the date cell M3 and
  the column D7:D37 of the target page of every configured spreadsheet hold the
  formatted target month and the attendance column; a second run with the same
  target month, work days and configuration, however it ends, leaves both ranges
  with exactly these contents.
\<close>

theorem C6_second_run_keeps_cells:
  assumes "fst (updateAndDownloadWorkSpreadsheets w T ws c) = Inr ()"
    and "sid \<in> set (WorkSpreadsheetIDs c)"
    and "w1 = snd (updateAndDownloadWorkSpreadsheets w T ws c)"
    and "w2 = snd (updateAndDownloadWorkSpreadsheets w1 T ws c)"
  shows "cell_values w1 sid (Format_200601 T) ''M3:M3'' = Some [[Format_2006_01_02 T]]
       \<and> cell_values w1 sid (Format_200601 T) ''D7:D37'' = Some (work_times T ws c 1 [])
       \<and> cell_values w2 sid (Format_200601 T) ''M3:M3''
           = cell_values w1 sid (Format_200601 T) ''M3:M3''
       \<and> cell_values w2 sid (Format_200601 T) ''D7:D37''
           = cell_values w1 sid (Format_200601 T) ''D7:D37''"
proof -
  have 1: "written w1 T ws c sid"
    unfolding assms(3) using assms(1,2) by (rule run_success)
  then have 2: "written w2 T ws c sid"
    unfolding assms(4) by (rule written_run)
  show ?thesis using 1 2 by (simp add: written_def)
qed

theorem C6_second_run_keeps_cells_witness:
  "fst (updateAndDownloadWorkSpreadsheets demo_world feb_2024 demo_days demo_config) = Inr ()
   \<and> ''book'' \<in> set (WorkSpreadsheetIDs demo_config)
   \<and> fst (updateAndDownloadWorkSpreadsheets
           (snd (updateAndDownloadWorkSpreadsheets demo_world feb_2024 demo_days demo_config))
           feb_2024 demo_days demo_config) = Inr ()
   \<and> cell_values
         (snd (updateAndDownloadWorkSpreadsheets
           (snd (updateAndDownloadWorkSpreadsheets demo_world feb_2024 demo_days demo_config))
           feb_2024 demo_days demo_config))
         ''book'' ''202402'' ''M3:M3'' = Some [[''2024/02/01'']]
   \<and> cell_values
         (snd (updateAndDownloadWorkSpreadsheets
           (snd (updateAndDownloadWorkSpreadsheets demo_world feb_2024 demo_days demo_config))
           feb_2024 demo_days demo_config))
         ''book'' ''202402'' ''D7:D37'' = Some (work_times feb_2024 demo_days demo_config 1 [])"
proof -
  have m: "''book'' \<in> set (WorkSpreadsheetIDs demo_config)" by (simp add: demo_config_def)
  have f: "Format_2006_01_02 feb_2024 = ''2024/02/01''"
    by (simp add: Format_2006_01_02_def feb_2024_def appendInt_def utoa.simps digit_def)
  show ?thesis
    using C6_second_run_keeps_cells [OF demo_run_once m refl refl] demo_run_once
      demo_run_twice m
    by (simp add: Format_200601_examples f)
qed


section \<open>C7: exactly one target document\<close>

text \<open>
  Claim C7.  Whenever the template has been copied, the removal loop has run
  through every page of the listing of the template's folder without error,
  the folder then held no file with the target name, and the copy is the one
  file with that name in the folder afterwards, however many files with the name
  there were and however the listing was cut into pages.
\<close>

theorem C7_one_target_document:
  assumes "fst (prepare_document w T c) = Inr f"
    and "find (\<lambda>g. FileId g = WorkDocumentTemplateID c) (DriveFiles w) = Some template"
    and "Parents template = folderID # rest"
    and "name = replace_first ''yyyymm'' (Format_200601 T) (Name template)"
    and "w1 = snd (files_get w (WorkDocumentTemplateID c))"
    and "w2 = snd (delete_existing w1 folderID name [])"
  shows "fst (delete_existing w1 folderID name []) = Inr ()
       \<and> named_in folderID name (DriveFiles w2) = []
       \<and> Name f = name \<and> Parents f = [folderID]
       \<and> DriveFiles (snd (prepare_document w T c)) = DriveFiles w2 @ [f]
       \<and> named_in folderID name (DriveFiles (snd (prepare_document w T c))) = [f]"
proof -
  have ok: "next_ok w"
    using assms(1) by (auto simp: prepare_document_def files_get_effect split: if_splits)
  have g: "files_get w (WorkDocumentTemplateID c) = (Some template, w1)"
    using ok assms(2,5) by (simp add: files_get_effect)
  have p: "prepare_document w T c =
      (case delete_existing w1 folderID name [] of
         (Inl e, w2) \<Rightarrow> (Inl e, w2)
       | (Inr _, w2) \<Rightarrow>
           (case files_copy w2 (WorkDocumentTemplateID c) name [folderID] of
              (None, w3) \<Rightarrow> (Inl (Fatal ''Failed to copy template''), w3)
            | (Some f, w3) \<Rightarrow> (Inr f, w3)))"
    using g assms(3) unfolding assms(4) by (simp add: prepare_document_def Let_def)
  have d: "fst (delete_existing w1 folderID name []) = Inr ()"
    using assms(1) unfolding p by (auto simp: split_beta split: sum.splits)
  then have p2: "prepare_document w T c =
      (case files_copy w2 (WorkDocumentTemplateID c) name [folderID] of
         (None, w3) \<Rightarrow> (Inl (Fatal ''Failed to copy template''), w3)
       | (Some f, w3) \<Rightarrow> (Inr f, w3))"
    unfolding p assms(6) by (simp add: split_beta)
  have n: "named_in folderID name (DriveFiles w2) = []"
    unfolding assms(6) using d by (rule delete_existing_none_left)
  have c: "fst (files_copy w2 (WorkDocumentTemplateID c) name [folderID]) = Some f"
    using assms(1) unfolding p2 by (auto simp: split_beta split: option.splits)
  then have f: "Name f = name" "Parents f = [folderID]"
    and fs: "DriveFiles (snd (files_copy w2 (WorkDocumentTemplateID c) name [folderID]))
        = DriveFiles w2 @ [f]"
    by (auto simp: files_copy_def remote_eq Let_def split: if_splits)
  have s: "snd (prepare_document w T c)
      = snd (files_copy w2 (WorkDocumentTemplateID c) name [folderID])"
    unfolding p2 by (simp add: split_beta split: option.splits)
  have "named_in folderID name (DriveFiles w2 @ [f]) = [f]"
    using n f by (simp add: named_in_def)
  then show ?thesis using d n f fs s by simp
qed

theorem C7_one_target_document_witness:
  "fst (prepare_document demo_world feb_2024 demo_config)
     = Inr \<lparr>FileId = ''new'', Name = ''Report 202402'', Parents = [''folder'']\<rparr>
   \<and> find (\<lambda>g. FileId g = WorkDocumentTemplateID demo_config) (DriveFiles demo_world)
       = Some \<lparr>FileId = ''tpl'', Name = ''Report yyyymm'', Parents = [''folder'']\<rparr>
   \<and> replace_first ''yyyymm'' (Format_200601 feb_2024) ''Report yyyymm'' = ''Report 202402''
   \<and> named_in ''folder'' ''Report 202402'' (DriveFiles demo_world)
       = [\<lparr>FileId = ''old1'', Name = ''Report 202402'', Parents = [''folder'']\<rparr>,
          \<lparr>FileId = ''old2'', Name = ''Report 202402'', Parents = [''folder'']\<rparr>]
   \<and> named_in ''folder'' ''Report 202402''
         (DriveFiles (snd (prepare_document demo_world feb_2024 demo_config)))
       = [\<lparr>FileId = ''new'', Name = ''Report 202402'', Parents = [''folder'']\<rparr>]"
proof -
  let ?tpl = "\<lparr>FileId = ''tpl'', Name = ''Report yyyymm'', Parents = [''folder'']\<rparr>"
  have t: "find (\<lambda>g. FileId g = WorkDocumentTemplateID demo_config) (DriveFiles demo_world)
       = Some ?tpl"
    by (simp add: demo_world_def demo_config_def)
  have p: "Parents ?tpl = ''folder'' # []" by simp
  have n: "''Report 202402'' = replace_first ''yyyymm'' (Format_200601 feb_2024) (Name ?tpl)"
    by (simp add: Format_200601_examples)
  have o: "named_in ''folder'' ''Report 202402'' (DriveFiles demo_world)
       = [\<lparr>FileId = ''old1'', Name = ''Report 202402'', Parents = [''folder'']\<rparr>,
          \<lparr>FileId = ''old2'', Name = ''Report 202402'', Parents = [''folder'']\<rparr>]"
    by (simp add: named_in_def demo_world_def)
  have l: "named_in ''folder'' ''Report 202402''
         (DriveFiles (snd (prepare_document demo_world feb_2024 demo_config)))
       = [\<lparr>FileId = ''new'', Name = ''Report 202402'', Parents = [''folder'']\<rparr>]"
    using C7_one_target_document [OF demo_prepare t p n refl refl] by blast
  show ?thesis
    using demo_prepare t n [symmetric] o l by simp
qed


section \<open>C9: a template without a parent folder\<close>

lemma prepare_document_no_parents:
  assumes "next_ok w"
    and "find (\<lambda>g. FileId g = WorkDocumentTemplateID c) (DriveFiles w) = Some template"
    and "Parents template = []"
  shows "fst (prepare_document w T c)
      = Inl (Panic ''runtime error: index out of range [0] with length 0'')"
  using assms by (simp add: prepare_document_def files_get_effect)

text \<open>
  Claim C9 says that a template whose list of parents is empty makes the run
  end with the fatal error of \<open>log.Fatalf\<close>.  The program indexes the list
  without a test; on the empty list the run ends with a panic of the Go run time
  instead, here for the example template without parents.
\<close>

theorem C9_empty_parents_panic:
  "fst (updateAndDownloadWorkDocuments orphan_world feb_2024 demo_config)
     = Inl (Panic ''runtime error: index out of range [0] with length 0'')
   \<and> (\<forall>msg. fst (updateAndDownloadWorkDocuments orphan_world feb_2024 demo_config)
          \<noteq> Inl (Fatal msg))"
  by (simp add: updateAndDownloadWorkDocuments_def new_service_def remote_eq next_ok_def
      prepare_document_def files_get_def orphan_world_def demo_world_def demo_config_def)


end
